theory Spec2Isabelle
  imports Main "HOL-Library.Sublist" "HOL-Library.AList"
begin

section \<open>The build script \<open>setup_ts.py\<close> and its environment\<close>

text \<open>
  The script sequences filesystem operations, two downloads and calls of the package
  manager. Its functions are embedded as functions on a \<open>world\<close>: the files below the
  working directory, the lines printed so far and the URLs requested so far. A function
  returns \<open>Inr w'\<close> when the Python function returns, and \<open>Inl (e, w')\<close> when it raises
  \<open>e\<close>, with \<open>w'\<close> the world at the moment of the raise.
\<close>

subsection \<open>Exceptions, results\<close>

datatype exn =
    RuntimeError | ImportError | KeyError | TypeError | JSONDecodeError
  | FileNotFoundError | FileExistsError | NotADirectoryError | IsADirectoryError
  | SameFileError | ShutilError | OSError
  | HTTPError | ReadError | CalledProcessError

type_synonym 's res = "(exn \<times> 's) + 's"

definition and_then :: "'s res \<Rightarrow> ('s \<Rightarrow> 's res) \<Rightarrow> 's res" where
  "and_then r f = (case r of Inl x \<Rightarrow> Inl x | Inr s \<Rightarrow> f s)"

subsection \<open>JSON documents\<close>

text \<open>
  A document as \<open>json.load\<close> returns it. An object is a Python \<open>dict\<close>: an association
  list in insertion order; \<open>d[k] = v\<close> replaces the value of an existing key in place and
  appends a new key (\<open>AList.update\<close>). Numbers are integers (a manifest holds no others).
\<close>

datatype json =
    JNull | JBool bool | JNum int | JStr string
  | JArr "json list" | JObj "(string \<times> json) list"

fun getitem :: "json \<Rightarrow> string \<Rightarrow> exn + json" where
  "getitem (JObj kvs) k = (case map_of kvs k of None \<Rightarrow> Inl KeyError | Some v \<Rightarrow> Inr v)"
| "getitem _ k = Inl TypeError"

fun setitem :: "json \<Rightarrow> string \<Rightarrow> json \<Rightarrow> exn + json" where
  "setitem (JObj kvs) k v = Inr (JObj (AList.update k v kvs))"
| "setitem _ k v = Inl TypeError"

text \<open>\<open>d[k1][k2] = v\<close>: the inner dict is mutated in place, so the outer one sees it.\<close>

definition setitem2 :: "json \<Rightarrow> string \<Rightarrow> string \<Rightarrow> json \<Rightarrow> exn + json" where
  "setitem2 d k1 k2 v =
     (case getitem d k1 of
        Inl e \<Rightarrow> Inl e
      | Inr inner \<Rightarrow>
          (case setitem inner k2 v of
             Inl e \<Rightarrow> Inl e
           | Inr inner' \<Rightarrow> setitem d k1 inner'))"

subsection \<open>The filesystem\<close>

text \<open>
  A path is the list of its components from the working directory (\<open>[]\<close> is the working
  directory itself, and a path that leaves it begins with \<open>..\<close> components). A node is a
  regular file, a directory or a symbolic link; devices, pipes and permissions are not
  modelled. The content of a file is either the JSON document its text denotes, or other
  data, which \<open>json.load\<close> rejects.

  A symbolic link records the path it leads to. Links are followed at the last component
  of a path, where the Python primitive follows them (\<open>stat\<close> versus \<open>lstat\<close>). Paths are
  otherwise looked up literally: an entry is found under the path of the directory that
  holds it. The one place where the script names an entry through a link, the second link
  of the legacy branch (line 211), is covered by \<open>symlink_to\<close>, which makes the new entry
  in the directory that the parent of the path leads to.
\<close>

type_synonym path = "string list"

datatype content = Json json | Data string

datatype node = File content | Dir | Symlink path

type_synonym filesystem = "(path \<times> node) list"

definition lstat :: "filesystem \<Rightarrow> path \<Rightarrow> node option" where
  "lstat fs p = (if p = [] then Some Dir else map_of fs p)"

definition symloop_max :: nat where
  "symloop_max = 40"

text \<open>Follows the links at \<open>p\<close>; \<open>None\<close> when more than \<open>symloop_max\<close> are chained.\<close>

fun chase :: "nat \<Rightarrow> filesystem \<Rightarrow> path \<Rightarrow> path option" where
  "chase 0 fs p = None"
| "chase (Suc k) fs p =
     (case lstat fs p of Some (Symlink t) \<Rightarrow> chase k fs t | _ \<Rightarrow> Some p)"

definition realpath :: "filesystem \<Rightarrow> path \<Rightarrow> path option" where
  "realpath fs p = chase (Suc symloop_max) fs p"

definition stat :: "filesystem \<Rightarrow> path \<Rightarrow> node option" where
  "stat fs p = (case realpath fs p of None \<Rightarrow> None | Some q \<Rightarrow> lstat fs q)"

definition path_exists :: "filesystem \<Rightarrow> path \<Rightarrow> bool" where
  "path_exists fs p = (stat fs p \<noteq> None)"

definition is_file :: "filesystem \<Rightarrow> path \<Rightarrow> bool" where
  "is_file fs p = (case stat fs p of Some (File c) \<Rightarrow> True | _ \<Rightarrow> False)"

definition is_dir :: "filesystem \<Rightarrow> path \<Rightarrow> bool" where
  "is_dir fs p = (stat fs p = Some Dir)"

definition is_symlink :: "filesystem \<Rightarrow> path \<Rightarrow> bool" where
  "is_symlink fs p = (case lstat fs p of Some (Symlink t) \<Rightarrow> True | _ \<Rightarrow> False)"

text \<open>The exception for a path whose parent directory cannot be used.\<close>

definition parent_error :: "filesystem \<Rightarrow> path \<Rightarrow> exn" where
  "parent_error fs p =
     (if path_exists fs (butlast p) then NotADirectoryError else FileNotFoundError)"

definition remove_tree :: "path \<Rightarrow> filesystem \<Rightarrow> filesystem" where
  "remove_tree p fs = filter (\<lambda>(q, n). \<not> prefix p q) fs"

text \<open>
  \<open>shutil.rmtree(p, ignore_errors=True)\<close>: removes a directory with everything below it.
  On a regular file or a symbolic link \<open>rmtree\<close> fails, and on a missing path too; the error
  is ignored and nothing is removed.
\<close>

definition rmtree_ignore_errors :: "path \<Rightarrow> filesystem \<Rightarrow> filesystem" where
  "rmtree_ignore_errors p fs =
     (case lstat fs p of Some Dir \<Rightarrow> remove_tree p fs | _ \<Rightarrow> fs)"

text \<open>\<open>shutil.rmtree(p)\<close>\<close>

definition rmtree :: "path \<Rightarrow> filesystem \<Rightarrow> filesystem res" where
  "rmtree p fs =
     (case lstat fs p of
        None \<Rightarrow> Inl (FileNotFoundError, fs)
      | Some (File c) \<Rightarrow> Inl (NotADirectoryError, fs)
      | Some (Symlink t) \<Rightarrow> Inl (OSError, fs)
      | Some Dir \<Rightarrow> Inr (remove_tree p fs))"

text \<open>\<open>Path.unlink()\<close>, \<open>os.remove(p)\<close>: removes a file or the link itself.\<close>

definition unlink :: "path \<Rightarrow> filesystem \<Rightarrow> filesystem res" where
  "unlink p fs =
     (case lstat fs p of
        None \<Rightarrow> Inl (FileNotFoundError, fs)
      | Some Dir \<Rightarrow> Inl (IsADirectoryError, fs)
      | Some n \<Rightarrow> Inr (AList.delete p fs))"

text \<open>\<open>Path.mkdir()\<close>\<close>

definition mkdir :: "path \<Rightarrow> filesystem \<Rightarrow> filesystem res" where
  "mkdir p fs =
     (if \<not> is_dir fs (butlast p) then Inl (parent_error fs p, fs)
      else if lstat fs p \<noteq> None then Inl (FileExistsError, fs)
      else Inr (fs @ [(p, Dir)]))"

text \<open>\<open>Path.mkdir(exist_ok=True)\<close>: an existing directory (or link to one) is accepted.\<close>

definition mkdir_exist_ok :: "path \<Rightarrow> filesystem \<Rightarrow> filesystem res" where
  "mkdir_exist_ok p fs =
     (case mkdir p fs of
        Inl (e, fs') \<Rightarrow> if e = FileExistsError \<and> is_dir fs p then Inr fs else Inl (e, fs')
      | Inr fs' \<Rightarrow> Inr fs')"

text \<open>\<open>os.makedirs(p)\<close>: creates the missing ancestors, then \<open>p\<close>, which must not exist.\<close>

fun make_ancestors :: "path list \<Rightarrow> filesystem \<Rightarrow> filesystem res" where
  "make_ancestors [] fs = Inr fs"
| "make_ancestors (d # ds) fs =
     (if path_exists fs d then make_ancestors ds fs
      else and_then (mkdir d fs) (make_ancestors ds))"

definition makedirs :: "path \<Rightarrow> filesystem \<Rightarrow> filesystem res" where
  "makedirs p fs = and_then (make_ancestors (butlast (prefixes p)) fs) (mkdir p)"

text \<open>
  \<open>open(p, 'w')\<close> followed by writing \<open>c\<close>: through a link to the file it points to; a
  missing file is created in a directory that exists.
\<close>

definition write_file :: "path \<Rightarrow> content \<Rightarrow> filesystem \<Rightarrow> filesystem res" where
  "write_file p c fs =
     (case realpath fs p of
        None \<Rightarrow> Inl (OSError, fs)
      | Some q \<Rightarrow>
          (case lstat fs q of
             Some Dir \<Rightarrow> Inl (IsADirectoryError, fs)
           | Some (Symlink t) \<Rightarrow> Inl (OSError, fs)
           | Some (File old) \<Rightarrow> Inr (AList.update q (File c) fs)
           | None \<Rightarrow>
               if is_dir fs (butlast q) then Inr (AList.update q (File c) fs)
               else Inl (parent_error fs q, fs)))"

text \<open>\<open>open(p).read()\<close>\<close>

definition read_file :: "filesystem \<Rightarrow> path \<Rightarrow> exn + content" where
  "read_file fs p =
     (case realpath fs p of
        None \<Rightarrow> Inl OSError
      | Some q \<Rightarrow>
          (case lstat fs q of
             Some (File c) \<Rightarrow> Inr c
           | Some Dir \<Rightarrow> Inl IsADirectoryError
           | Some (Symlink t) \<Rightarrow> Inl OSError
           | None \<Rightarrow> Inl FileNotFoundError))"

text \<open>\<open>json.load(open(p))\<close>\<close>

definition json_load :: "filesystem \<Rightarrow> path \<Rightarrow> exn + json" where
  "json_load fs p =
     (case read_file fs p of
        Inl e \<Rightarrow> Inl e
      | Inr (Json d) \<Rightarrow> Inr d
      | Inr (Data s) \<Rightarrow> Inl JSONDecodeError)"

text \<open>\<open>json.dump(d, open(p, 'w'), indent=2)\<close>\<close>

definition json_dump :: "json \<Rightarrow> path \<Rightarrow> filesystem \<Rightarrow> filesystem res" where
  "json_dump d p fs = write_file p (Json d) fs"

text \<open>\<open>os.path.samefile\<close> as \<open>shutil.copyfile\<close> uses it: both exist and are one file.\<close>

definition samefile :: "filesystem \<Rightarrow> path \<Rightarrow> path \<Rightarrow> bool" where
  "samefile fs p q = (path_exists fs p \<and> path_exists fs q \<and> realpath fs p = realpath fs q)"

text \<open>\<open>shutil.copyfile(src, dst)\<close>\<close>

definition copyfile :: "path \<Rightarrow> path \<Rightarrow> filesystem \<Rightarrow> filesystem res" where
  "copyfile src dst fs =
     (if samefile fs src dst then Inl (SameFileError, fs)
      else (case read_file fs src of
              Inl e \<Rightarrow> Inl (e, fs)
            | Inr c \<Rightarrow> write_file dst c fs))"

text \<open>\<open>shutil.copy(src, dst)\<close>: into \<open>dst\<close> when that is a directory.\<close>

definition copy :: "path \<Rightarrow> path \<Rightarrow> filesystem \<Rightarrow> filesystem res" where
  "copy src dst fs =
     (if src \<noteq> [] \<and> is_dir fs dst then copyfile src (dst @ [last src]) fs
      else copyfile src dst fs)"

text \<open>\<open>Path.iterdir()\<close>: the names in a directory, in the order of the listing.\<close>

definition children :: "filesystem \<Rightarrow> path \<Rightarrow> string list" where
  "children fs d = remdups (map (\<lambda>(q, n). last q) (filter (\<lambda>(q, n). q \<noteq> [] \<and> butlast q = d) fs))"

definition iterdir :: "filesystem \<Rightarrow> path \<Rightarrow> exn + string list" where
  "iterdir fs d =
     (case stat fs d of
        None \<Rightarrow> Inl FileNotFoundError
      | Some Dir \<Rightarrow> Inr (children fs d)
      | Some n \<Rightarrow> Inl NotADirectoryError)"

text \<open>
  \<open>os.path.relpath(p, start)\<close>: both paths are made absolute without looking at the
  filesystem, and the result climbs from \<open>start\<close> to their common ancestor and descends to
  \<open>p\<close>. The script takes \<open>start\<close> below the working directory.
\<close>

definition relpath :: "path \<Rightarrow> path \<Rightarrow> path" where
  "relpath p start =
     (let i = length (longest_common_prefix start p)
      in replicate (length start - i) ''..'' @ drop i p)"

text \<open>Where the relative path \<open>text\<close> leads from the directory \<open>d\<close>.\<close>

fun ascend :: "path \<Rightarrow> path \<Rightarrow> path" where
  "ascend d [] = d"
| "ascend d (c # cs) =
     ascend (if c = ''..'' then (if d = [] \<or> last d = ''..'' then d @ [''..''] else butlast d)
             else d @ [c]) cs"

text \<open>
  \<open>Path(link).symlink_to(text)\<close>: the parent of \<open>link\<close> must lead to a directory, and the
  new entry is made in that directory, where no entry of that name may exist. The text of
  a link is relative, so the link leads to where the text leads from the directory that
  holds the link; that place need not exist.
\<close>

definition symlink_to :: "path \<Rightarrow> path \<Rightarrow> filesystem \<Rightarrow> filesystem res" where
  "symlink_to link text fs =
     (if link = [] then Inl (FileExistsError, fs)
      else
        (case realpath fs (butlast link) of
           None \<Rightarrow> Inl (OSError, fs)
         | Some d \<Rightarrow>
             (case lstat fs d of
                None \<Rightarrow> Inl (FileNotFoundError, fs)
              | Some Dir \<Rightarrow>
                  if lstat fs (d @ [last link]) \<noteq> None then Inl (FileExistsError, fs)
                  else Inr (fs @ [(d @ [last link], Symlink (ascend d text))])
              | Some n \<Rightarrow> Inl (NotADirectoryError, fs))))"

text \<open>
  The tree below the directory \<open>s\<close> as \<open>shutil.copytree\<close> copies it (with
  \<open>symlinks=False\<close>): paths relative to \<open>s\<close>, a link replaced by the file or the directory
  tree it points to. The flag is \<open>False\<close> when a link dangles or links are nested too deep;
  \<open>copytree\<close> copies the rest and raises \<open>Error\<close> at the end.
\<close>

fun tree_members :: "nat \<Rightarrow> filesystem \<Rightarrow> path \<Rightarrow> bool \<times> (path \<times> node) list" where
  "tree_members 0 fs s = (False, [])"
| "tree_members (Suc k) fs s =
     (let member = (\<lambda>(q, n).
            let r = drop (length s) q in
            (case n of
               Symlink t \<Rightarrow>
                 (case (stat fs q, realpath fs q) of
                    (Some (File c), _) \<Rightarrow> (True, [(r, File c)])
                  | (Some Dir, Some d) \<Rightarrow>
                      (let (ok, ms) = tree_members k fs d
                       in (ok, (r, Dir) # map (\<lambda>(r', n'). (r @ r', n')) ms))
                  | _ \<Rightarrow> (False, []))
             | _ \<Rightarrow> (True, [(r, n)])));
          rs = map member (filter (\<lambda>(q, n). strict_prefix s q) fs)
      in (list_all fst rs, concat (map snd rs)))"

text \<open>
  \<open>shutil.copytree(src, dst)\<close>: \<open>dst\<close> must not exist; it is created with its missing
  ancestors, and the tree is copied below it. The script never copies a tree into itself.
\<close>

definition copytree :: "path \<Rightarrow> path \<Rightarrow> filesystem \<Rightarrow> filesystem res" where
  "copytree src dst fs =
     (case (stat fs src, realpath fs src) of
        (Some Dir, Some s) \<Rightarrow>
          and_then (makedirs dst fs) (\<lambda>fs1.
            let (ok, ms) = tree_members symloop_max fs s;
                fs2 = fs1 @ map (\<lambda>(r, n). (dst @ r, n)) ms
            in if ok then Inr fs2 else Inl (ShutilError, fs2))
      | (Some n, _) \<Rightarrow> Inl (NotADirectoryError, fs)
      | (None, _) \<Rightarrow> Inl (FileNotFoundError, fs))"

text \<open>
  \<open>Path.rename(dst)\<close>, that is \<open>os.rename\<close>: on Windows an existing \<open>dst\<close> is an error;
  elsewhere a file replaces a file or link, and a directory replaces an empty directory.
\<close>

definition move_tree :: "path \<Rightarrow> path \<Rightarrow> filesystem \<Rightarrow> filesystem" where
  "move_tree src dst fs =
     map (\<lambda>(q, n). if prefix src q then (dst @ drop (length src) q, n) else (q, n))
       (AList.delete dst fs)"

definition rename :: "bool \<Rightarrow> path \<Rightarrow> path \<Rightarrow> filesystem \<Rightarrow> filesystem res" where
  "rename windows src dst fs =
     (case lstat fs src of
        None \<Rightarrow> Inl (FileNotFoundError, fs)
      | Some n \<Rightarrow>
          if \<not> is_dir fs (butlast dst) then Inl (parent_error fs dst, fs)
          else if src = dst then Inr fs
          else if prefix src dst then Inl (OSError, fs)
          else (case lstat fs dst of
                  None \<Rightarrow> Inr (move_tree src dst fs)
                | Some m \<Rightarrow>
                    if windows then Inl (FileExistsError, fs)
                    else if n = Dir then
                      (if m \<noteq> Dir then Inl (NotADirectoryError, fs)
                       else if children fs dst \<noteq> [] then Inl (OSError, fs)
                       else Inr (move_tree src dst fs))
                    else if m = Dir then Inl (IsADirectoryError, fs)
                    else Inr (move_tree src dst fs)))"

subsection \<open>The world and the host\<close>

datatype printed = Line string | Json_line string json

record world =
  files :: filesystem
  stdout :: "printed list"
  requests :: "string list"

definition on_files :: "(filesystem \<Rightarrow> filesystem res) \<Rightarrow> world \<Rightarrow> world res" where
  "on_files f w =
     (case f (files w) of
        Inl (e, fs) \<Rightarrow> Inl (e, w\<lparr>files := fs\<rparr>)
      | Inr fs \<Rightarrow> Inr (w\<lparr>files := fs\<rparr>))"

text \<open>
  What the script takes from the machine it runs on. The network, the archive libraries
  and the package manager are parameters: \<open>http_get\<close> answers a URL with a status code and
  a body or fails; \<open>extractall\<close> unpacks a body of a given format below a directory;
  \<open>run_process\<close> runs a command line in a directory, with \<open>PATH\<close> replaced when a value is
  given, changes the files as it likes, and ends with an exit code, unless it cannot be
  started; \<open>format_exc\<close> renders a traceback.
\<close>

datatype archive_format = Tar_xz | Zip | Tar_gz

record host =
  sys_platform :: string
  jupyterlab_version :: "string option"
  GLOBAL_TOOLCHAIN :: "string option"
  environ_PATH :: string
  working_directory :: string
  exec_prefix :: path
  requests_installed :: bool
  http_get :: "string \<Rightarrow> exn + nat \<times> string"
  extractall :: "archive_format \<Rightarrow> string \<Rightarrow> path \<Rightarrow> filesystem \<Rightarrow> filesystem res"
  run_process :: "string list \<Rightarrow> path \<Rightarrow> string option \<Rightarrow> filesystem \<Rightarrow> (exn + int) \<times> filesystem"
  format_exc :: "exn \<Rightarrow> string"

text \<open>Python's truth value of \<open>None\<close> or a string.\<close>

definition truthy :: "string option \<Rightarrow> bool" where
  "truthy v = (case v of None \<Rightarrow> False | Some s \<Rightarrow> s \<noteq> [])"

subsection \<open>Module level: versions and the platform branch\<close>

definition node_version :: string where
  "node_version = ''v16.3.0''"

definition yarn_version :: string where
  "yarn_version = ''v1.22.10''"

text \<open>\<open>str.split(sep)\<close> for a separator of one character.\<close>

fun split_sep :: "char \<Rightarrow> string \<Rightarrow> string list" where
  "split_sep c [] = [[]]"
| "split_sep c (x # xs) =
     (if x = c then [] # split_sep c xs
      else (x # hd (split_sep c xs)) # tl (split_sep c xs))"

definition get_jupyter_lab_version :: "host \<Rightarrow> string" where
  "get_jupyter_lab_version h =
     (case jupyterlab_version h of Some v \<Rightarrow> v | None \<Rightarrow> ''3.x'')"

definition jupyter_lab_major_version :: "host \<Rightarrow> string" where
  "jupyter_lab_major_version h = hd (split_sep CHR ''.'' (get_jupyter_lab_version h))"

text \<open>The names bound by the branch on \<open>sys.platform\<close> (lines 77 to 102).\<close>

record profile =
  node_executable :: string
  node_spec :: string
  node_download_url :: string
  node_extractor :: archive_format
  node_executable_in_tarball :: path
  yarn_executable :: string
  yarn_download_url :: string
  path_env_seperator :: string

definition platform_branch :: "string \<Rightarrow> exn + profile" where
  "platform_branch platform =
     (if platform = ''linux'' \<or> platform = ''darwin'' then
        (let spec = ''node-'' @ node_version @ ''-'' @ platform @ ''-x64'' in
         Inr \<lparr>node_executable = ''node'',
              node_spec = spec,
              node_download_url = ''https://nodejs.org/dist/'' @ node_version @ ''/'' @ spec @ ''.tar.xz'',
              node_extractor = Tar_xz,
              node_executable_in_tarball = [''bin'', ''node''],
              yarn_executable = ''yarn'',
              yarn_download_url = ''https://github.com/yarnpkg/yarn/releases/download/''
                @ yarn_version @ ''/yarn-'' @ yarn_version @ ''.tar.gz'',
              path_env_seperator = '':''\<rparr>)
      else if platform = ''win32'' then
        (let spec = ''node-'' @ node_version @ ''-win-x64'' in
         Inr \<lparr>node_executable = ''node.exe'',
              node_spec = spec,
              node_download_url = ''https://nodejs.org/dist/'' @ node_version @ ''/'' @ spec @ ''.zip'',
              node_extractor = Zip,
              node_executable_in_tarball = [''node.exe''],
              yarn_executable = ''yarn.cmd'',
              yarn_download_url = ''https://github.com/yarnpkg/yarn/releases/download/''
                @ yarn_version @ ''/yarn-'' @ yarn_version @ ''.tar.gz'',
              path_env_seperator = '';''\<rparr>)
      else Inl RuntimeError)"

subsection \<open>Helpers of the script\<close>

text \<open>A \<open>for\<close> loop whose body may raise.\<close>

fun for_each :: "('a \<Rightarrow> 's \<Rightarrow> 's res) \<Rightarrow> 'a list \<Rightarrow> 's \<Rightarrow> 's res" where
  "for_each body [] s = Inr s"
| "for_each body (x # xs) s = and_then (body x s) (for_each body xs)"

text \<open>\<open>_print(msg, color=...)\<close>: one line on standard output.\<close>

definition color_code :: "string \<Rightarrow> string option" where
  "color_code color = map_of [(''yellow'', ''33''), (''cyan'', ''36'')] color"

definition print_msg :: "host \<Rightarrow> string \<Rightarrow> string \<Rightarrow> world \<Rightarrow> world res" where
  "print_msg h color msg w =
     (case color_code color of
        None \<Rightarrow> Inl (KeyError, w)
      | Some code \<Rightarrow>
          Inr (w\<lparr>stdout := stdout w @
                 [Line (if sys_platform h = ''win32'' then msg
                        else [CHR 0x1B] @ ''[1;'' @ code @ ''m# '' @ msg @ '' '' @ [CHR 0x1B] @ ''[0m'')]\<rparr>))"

text \<open>\<open>str(base / name)\<close> for an absolute \<open>base\<close>.\<close>

definition os_sep :: "host \<Rightarrow> string" where
  "os_sep h = (if sys_platform h = ''win32'' then [CHR 0x5C] else ''/'')"

definition joinpath :: "host \<Rightarrow> string \<Rightarrow> string \<Rightarrow> string" where
  "joinpath h base name =
     (if suffix (os_sep h) base then base @ name else base @ os_sep h @ name)"

text \<open>\<open>_yarn_env['PATH']\<close> and \<open>_yarn_path\<close> (lines 251 to 254).\<close>

definition yarn_env_PATH :: "host \<Rightarrow> profile \<Rightarrow> string" where
  "yarn_env_PATH h pf =
     joinpath h (working_directory h) ''nni_node'' @ path_env_seperator pf @ environ_PATH h"

definition yarn_path :: "host \<Rightarrow> profile \<Rightarrow> string" where
  "yarn_path h pf =
     joinpath h (joinpath h (joinpath h (joinpath h (working_directory h) ''toolchain'')
       ''yarn'') ''bin'') (yarn_executable pf)"

text \<open>\<open>subprocess.run(argv, cwd=dir, check=True, env=...)\<close>\<close>

definition subprocess_run ::
  "host \<Rightarrow> string list \<Rightarrow> path \<Rightarrow> string option \<Rightarrow> world \<Rightarrow> world res" where
  "subprocess_run h argv dir search_path w =
     (case run_process h argv dir search_path (files w) of
        (Inl e, fs) \<Rightarrow> Inl (e, w\<lparr>files := fs\<rparr>)
      | (Inr code, fs) \<Rightarrow>
          if code \<noteq> 0 then Inl (CalledProcessError, w\<lparr>files := fs\<rparr>)
          else Inr (w\<lparr>files := fs\<rparr>))"

text \<open>\<open>_yarn(path, *args)\<close>\<close>

definition yarn :: "host \<Rightarrow> profile \<Rightarrow> path \<Rightarrow> string list \<Rightarrow> world \<Rightarrow> world res" where
  "yarn h pf dir args w =
     (if truthy (GLOBAL_TOOLCHAIN h) then subprocess_run h (''yarn'' # args) dir None w
      else subprocess_run h (yarn_path h pf # args) dir (Some (yarn_env_PATH h pf)) w)"

text \<open>
  \<open>_symlink(target_file, link_location)\<close>: the text of the link is the target relative to
  the parent of the link as the script writes it (lines 266 and 267).
\<close>

definition symlink :: "path \<Rightarrow> path \<Rightarrow> world \<Rightarrow> world res" where
  "symlink target link w = on_files (symlink_to link (relpath target (butlast link))) w"

subsection \<open>The paths the script names\<close>

definition nni_node :: path where
  "nni_node = [''nni_node'']"

definition toolchain :: path where
  "toolchain = [''toolchain'']"

definition nni_manager :: path where
  "nni_manager = [''ts'', ''nni_manager'']"

definition webui :: path where
  "webui = [''ts'', ''webui'']"

definition jupyter_extension :: path where
  "jupyter_extension = [''ts'', ''jupyter_extension'']"

definition generated_files :: "path list" where
  "generated_files =
     [[''ts'', ''nni_manager'', ''dist''],
      [''ts'', ''nni_manager'', ''node_modules''],
      [''ts'', ''webui'', ''build''],
      [''ts'', ''webui'', ''node_modules''],
      [''ts'', ''nni_manager'', ''.nyc_output''],
      [''ts'', ''nni_manager'', ''coverage''],
      [''ts'', ''nni_manager'', ''exp_profile.json''],
      [''ts'', ''nni_manager'', ''metrics.json''],
      [''ts'', ''nni_manager'', ''trial_jobs.json'']]"

subsection \<open>\<open>clean\<close>\<close>

definition clean_path :: "path \<Rightarrow> filesystem \<Rightarrow> filesystem res" where
  "clean_path p fs =
     (if is_symlink fs p \<or> is_file fs p then unlink p fs
      else if is_dir fs p then rmtree p fs
      else Inr fs)"

definition clean :: "bool \<Rightarrow> world \<Rightarrow> world res" where
  "clean clean_all w =
     and_then (on_files (\<lambda>fs. Inr (rmtree_ignore_errors nni_node fs)) w) (\<lambda>w.
     and_then (on_files (for_each clean_path generated_files) w) (\<lambda>w.
     if clean_all then on_files (\<lambda>fs. Inr (rmtree_ignore_errors toolchain fs)) w
     else Inr w))"

subsection \<open>\<open>download_toolchain\<close>\<close>

text \<open>\<open>resp = requests.get(url); resp.raise_for_status()\<close>, then the rest with the body.\<close>

definition requests_get ::
  "host \<Rightarrow> string \<Rightarrow> (string \<Rightarrow> world \<Rightarrow> world res) \<Rightarrow> world \<Rightarrow> world res" where
  "requests_get h url rest w =
     (let w1 = w\<lparr>requests := requests w @ [url]\<rparr> in
      case http_get h url of
        Inl e \<Rightarrow> Inl (e, w1)
      | Inr (status, body) \<Rightarrow>
          if 400 \<le> status \<and> status < 600 then Inl (HTTPError, w1) else rest body w1)"

definition download_toolchain :: "host \<Rightarrow> profile \<Rightarrow> world \<Rightarrow> world res" where
  "download_toolchain h pf w =
     (if is_file (files w) (toolchain @ [''node''] @ node_executable_in_tarball pf) then Inr w
      else
        and_then (on_files (mkdir_exist_ok toolchain) w) (\<lambda>w.
        and_then (if requests_installed h then Inr w else Inl (ImportError, w)) (\<lambda>w.
        and_then (print_msg h ''cyan'' (''Downloading node.js from '' @ node_download_url pf) w) (\<lambda>w.
        and_then (requests_get h (node_download_url pf) (\<lambda>body w.
          and_then (print_msg h ''cyan'' ''Extracting node.js'' w) (\<lambda>w.
          and_then (on_files (extractall h (node_extractor pf) body toolchain) w) (\<lambda>w.
          and_then (on_files (\<lambda>fs. Inr (rmtree_ignore_errors (toolchain @ [''node'']) fs)) w) (\<lambda>w.
          on_files (rename (sys_platform h = ''win32'') (toolchain @ [node_spec pf])
            (toolchain @ [''node''])) w)))) w) (\<lambda>w.
        and_then (print_msg h ''cyan'' (''Downloading yarn from '' @ yarn_download_url pf) w) (\<lambda>w.
        requests_get h (yarn_download_url pf) (\<lambda>body w.
          and_then (print_msg h ''cyan'' ''Extracting yarn'' w) (\<lambda>w.
          and_then (on_files (extractall h Tar_gz body toolchain) w) (\<lambda>w.
          and_then (on_files (\<lambda>fs. Inr (rmtree_ignore_errors (toolchain @ [''yarn'']) fs)) w) (\<lambda>w.
          on_files (rename (sys_platform h = ''win32'') (toolchain @ [''yarn-'' @ yarn_version])
            (toolchain @ [''yarn''])) w)))) w))))))"

subsection \<open>\<open>update_package\<close> and \<open>restore_package\<close>\<close>

definition package_json_path :: path where
  "package_json_path = jupyter_extension @ [''package.json'']"

definition package_default_path :: path where
  "package_default_path = jupyter_extension @ [''.package_default.json'']"

text \<open>The four assignments of \<open>update_package\<close> (lines 138 to 142).\<close>

definition patch_package :: "json \<Rightarrow> exn + json" where
  "patch_package d =
     (case setitem2 d ''scripts'' ''build'' (JStr ''tsc && jupyter labextension link .'') of
        Inl e \<Rightarrow> Inl e
      | Inr d1 \<Rightarrow>
     (case setitem2 d1 ''dependencies'' ''@jupyterlab/application'' (JStr ''^2.3.0'') of
        Inl e \<Rightarrow> Inl e
      | Inr d2 \<Rightarrow>
     (case setitem2 d2 ''dependencies'' ''@jupyterlab/launcher'' (JStr ''^2.3.0'') of
        Inl e \<Rightarrow> Inl e
      | Inr d3 \<Rightarrow> setitem2 d3 ''jupyterlab'' ''outputDir'' (JStr ''build''))))"

definition print_json :: "string \<Rightarrow> json \<Rightarrow> world \<Rightarrow> world res" where
  "print_json msg d w = Inr (w\<lparr>stdout := stdout w @ [Json_line msg d]\<rparr>)"

definition update_package :: "host \<Rightarrow> world \<Rightarrow> world res" where
  "update_package h w =
     (if jupyter_lab_major_version h = ''2'' then
        (case json_load (files w) package_json_path of
           Inl e \<Rightarrow> Inl (e, w)
         | Inr package_json \<Rightarrow>
             and_then (on_files (json_dump package_json package_default_path) w) (\<lambda>w.
               (case patch_package package_json of
                  Inl e \<Rightarrow> Inl (e, w)
                | Inr patched \<Rightarrow>
                    and_then (on_files (json_dump patched package_json_path) w)
                      (print_json ''updated package.json with '' patched))))
      else Inr w)"

definition restore_package :: "host \<Rightarrow> world \<Rightarrow> world res" where
  "restore_package h w =
     (if jupyter_lab_major_version h = ''2'' then
        (case json_load (files w) package_default_path of
           Inl e \<Rightarrow> Inl (e, w)
         | Inr package_json \<Rightarrow>
             and_then (print_json ''stored package.json with '' package_json w) (\<lambda>w.
             and_then (on_files (json_dump package_json package_json_path) w)
               (on_files (unlink package_default_path))))
      else Inr w)"

subsection \<open>\<open>prepare_nni_node\<close>\<close>

definition init_py :: content where
  "init_py = Data (replicate 3 (CHR 0x22) @ ''NNI node.js modules.'' @ replicate 3 (CHR 0x22)
     @ [CHR 0x0A])"

definition prepare_nni_node :: "profile \<Rightarrow> world \<Rightarrow> world res" where
  "prepare_nni_node pf w =
     and_then (on_files (\<lambda>fs. Inr (rmtree_ignore_errors nni_node fs)) w) (\<lambda>w.
     and_then (on_files (mkdir nni_node) w) (\<lambda>w.
     and_then (on_files (write_file (nni_node @ [''__init__.py'']) init_py) w) (\<lambda>w.
     on_files (copy (toolchain @ [''node''] @ node_executable_in_tarball pf)
       (nni_node @ [node_executable pf])) w)))"

subsection \<open>\<open>compile_ts\<close>\<close>

definition compile_ts :: "host \<Rightarrow> profile \<Rightarrow> string option \<Rightarrow> world \<Rightarrow> world res" where
  "compile_ts h pf release w =
     and_then (print_msg h ''cyan'' ''Building NNI manager'' w) (\<lambda>w.
     and_then (yarn h pf nni_manager [] w) (\<lambda>w.
     and_then (yarn h pf nni_manager [''build''] w) (\<lambda>w.
     and_then (on_files (\<lambda>fs. Inr (rmtree_ignore_errors (nni_manager @ [''dist'', ''config'']) fs)) w) (\<lambda>w.
     and_then (on_files (copytree (nni_manager @ [''config'']) (nni_manager @ [''dist'', ''config''])) w) (\<lambda>w.
     and_then (print_msg h ''cyan'' ''Building web UI'' w) (\<lambda>w.
     and_then (yarn h pf webui [] w) (\<lambda>w.
     and_then (yarn h pf webui [''build''] w) (\<lambda>w.
     and_then (print_msg h ''cyan'' ''Building JupyterLab extension'' w) (\<lambda>w.
     if truthy release then
       and_then (yarn h pf jupyter_extension [] w) (yarn h pf jupyter_extension [''build''])
     else
       (case and_then (yarn h pf jupyter_extension [] w) (yarn h pf jupyter_extension [''build'']) of
          Inr w \<Rightarrow> Inr w
        | Inl (e, w) \<Rightarrow>
            and_then (print_msg h ''yellow''
              ''Failed to build JupyterLab extension, skip for develop mode'' w)
              (print_msg h ''yellow'' (format_exc h e))))))))))))"

subsection \<open>\<open>symlink_nni_node\<close>\<close>

text \<open>
  The branch on the JupyterLab version at the end (lines 209 to 213). In the legacy branch
  the second link is named through the first one: the first link must lead to a directory,
  here \<open>ts/jupyter_extension/build\<close>, and the second link is made in that directory.
\<close>

definition symlink_jupyter_extension :: "host \<Rightarrow> world \<Rightarrow> world res" where
  "symlink_jupyter_extension h w =
     (if jupyter_lab_major_version h = ''2'' then
        and_then (symlink (jupyter_extension @ [''build'']) (nni_node @ [''jupyter-extension'']) w)
          (symlink (exec_prefix h @ [''share'', ''jupyter'', ''lab'', ''extensions''])
             (nni_node @ [''jupyter-extension'', ''extensions'']))
      else if path_exists (files w) (jupyter_extension @ [''dist'']) then
        symlink (jupyter_extension @ [''dist'']) (nni_node @ [''jupyter-extension'']) w
      else Inr w)"

definition symlink_nni_node :: "host \<Rightarrow> world \<Rightarrow> world res" where
  "symlink_nni_node h w =
     and_then (print_msg h ''cyan'' ''Creating symlinks'' w) (\<lambda>w.
     and_then (case iterdir (files w) (nni_manager @ [''dist'']) of
                 Inl e \<Rightarrow> Inl (e, w)
               | Inr names \<Rightarrow>
                   for_each (\<lambda>name. symlink (nni_manager @ [''dist'', name]) (nni_node @ [name]))
                     names w) (\<lambda>w.
     and_then (symlink (nni_manager @ [''package.json'']) (nni_node @ [''package.json'']) w) (\<lambda>w.
     and_then (symlink (nni_manager @ [''node_modules'']) (nni_node @ [''node_modules'']) w) (\<lambda>w.
     and_then (symlink (webui @ [''build'']) (nni_node @ [''static'']) w)
       (symlink_jupyter_extension h)))))"

subsection \<open>\<open>copy_nni_node\<close>\<close>

text \<open>
  The loop \<open>while len(version.split('.')) < 3: version = version + '.0'\<close>. Each round adds
  one separator, so it ends.
\<close>

function pad_version :: "string \<Rightarrow> string" where
  "pad_version version =
     (if length (split_sep CHR ''.'' version) < 3 then pad_version (version @ ''.0'')
      else version)"
  by pat_completeness auto
termination
proof (relation "measure (\<lambda>v. 3 - length (split_sep CHR ''.'' v))")
  fix version :: string
  have parts: "length (split_sep c s) = Suc (length (filter (\<lambda>x. x = c) s))" for c s
    by (induction s) auto
  assume "length (split_sep CHR ''.'' version) < 3"
  then show "(version @ ''.0'', version) \<in> measure (\<lambda>v. 3 - length (split_sep CHR ''.'' v))"
    by (simp add: parts)
qed simp

declare pad_version.simps [simp del]

text \<open>The body of the loop over \<open>ts/nni_manager/dist\<close> (lines 226 to 230).\<close>

definition copy_entry :: "string \<Rightarrow> filesystem \<Rightarrow> filesystem res" where
  "copy_entry name fs =
     (if is_dir fs (nni_manager @ [''dist'', name]) then
        copytree (nni_manager @ [''dist'', name]) (nni_node @ [name]) fs
      else if name \<noteq> ''nni_manager.tsbuildinfo'' then
        copyfile (nni_manager @ [''dist'', name]) (nni_node @ [name]) fs
      else Inr fs)"

definition copy_dist :: "world \<Rightarrow> world res" where
  "copy_dist w =
     (case iterdir (files w) (nni_manager @ [''dist'']) of
        Inl e \<Rightarrow> Inl (e, w)
      | Inr names \<Rightarrow> on_files (for_each copy_entry names) w)"

text \<open>Loading, versioning and writing the manifest (lines 232 to 237).\<close>

definition set_version :: "string option \<Rightarrow> json \<Rightarrow> exn + json" where
  "set_version version package_json =
     (case version of
        None \<Rightarrow> Inr package_json
      | Some v \<Rightarrow>
          if v = [] then Inr package_json
          else setitem package_json ''version'' (JStr (pad_version v)))"

definition write_manifest :: "string option \<Rightarrow> world \<Rightarrow> world res" where
  "write_manifest version w =
     (case json_load (files w) (nni_manager @ [''package.json'']) of
        Inl e \<Rightarrow> Inl (e, w)
      | Inr package_json \<Rightarrow>
          (case set_version version package_json of
             Inl e \<Rightarrow> Inl (e, w)
           | Inr d \<Rightarrow> on_files (json_dump d (nni_node @ [''package.json''])) w))"

text \<open>The branch on the JupyterLab version at the end (lines 244 to 248).\<close>

definition copy_jupyter_extension :: "host \<Rightarrow> string option \<Rightarrow> world \<Rightarrow> world res" where
  "copy_jupyter_extension h version w =
     (if jupyter_lab_major_version h = ''2'' then
        and_then (on_files (copytree (jupyter_extension @ [''build''])
                    (nni_node @ [''jupyter-extension'', ''build''])) w)
          (on_files (copytree (exec_prefix h @ [''share'', ''jupyter'', ''lab'', ''extensions''])
             (nni_node @ [''jupyter-extension'', ''extensions''])))
      else if truthy version \<or> path_exists (files w) (jupyter_extension @ [''dist'']) then
        on_files (copytree (jupyter_extension @ [''dist'']) (nni_node @ [''jupyter-extension''])) w
      else Inr w)"

definition copy_nni_node :: "host \<Rightarrow> profile \<Rightarrow> string option \<Rightarrow> world \<Rightarrow> world res" where
  "copy_nni_node h pf version w =
     and_then (print_msg h ''cyan'' ''Copying files'' w) (\<lambda>w.
     and_then (copy_dist w) (\<lambda>w.
     and_then (write_manifest version w) (\<lambda>w.
     and_then (yarn h pf nni_manager
                 [''--prod'', ''--cwd'', joinpath h (working_directory h) ''nni_node''] w) (\<lambda>w.
     and_then (on_files (copytree (webui @ [''build'']) (nni_node @ [''static''])) w)
       (copy_jupyter_extension h version)))))"

subsection \<open>\<open>build\<close>\<close>

definition build :: "host \<Rightarrow> profile \<Rightarrow> string option \<Rightarrow> world \<Rightarrow> world res" where
  "build h pf release w =
     and_then (if truthy release \<or> \<not> truthy (GLOBAL_TOOLCHAIN h) then download_toolchain h pf w
               else Inr w) (\<lambda>w.
     and_then (prepare_nni_node pf w) (\<lambda>w.
     and_then (update_package h w) (\<lambda>w.
     and_then (compile_ts h pf release w) (\<lambda>w.
     and_then (if truthy release \<or> sys_platform h = ''win32'' then copy_nni_node h pf release w
               else symlink_nni_node h w)
       (restore_package h)))))"

subsection \<open>Example worlds\<close>

text \<open>Concrete hosts and worlds on which the properties below are exercised.\<close>

definition example_manifest :: json where
  "example_manifest = JObj [(''name'', JStr ''nni''), (''version'', JStr ''999.0.0-developing''),
     (''main'', JStr ''index.js'')]"

definition example_extension_manifest :: json where
  "example_extension_manifest =
     JObj [(''name'', JStr ''nni-jupyter-extension''),
           (''scripts'', JObj [(''build'', JStr ''tsc && jupyter labextension build .'')]),
           (''dependencies'', JObj [(''@jupyterlab/application'', JStr ''^3.0.0''),
              (''@jupyterlab/launcher'', JStr ''^3.0.0'')]),
           (''jupyterlab'', JObj [(''extension'', JBool True), (''outputDir'', JStr ''dist'')])]"

definition linux_profile :: profile where
  "linux_profile =
     \<lparr>node_executable = ''node'',
      node_spec = ''node-v16.3.0-linux-x64'',
      node_download_url = ''https://nodejs.org/dist/v16.3.0/node-v16.3.0-linux-x64.tar.xz'',
      node_extractor = Tar_xz,
      node_executable_in_tarball = [''bin'', ''node''],
      yarn_executable = ''yarn'',
      yarn_download_url =
        ''https://github.com/yarnpkg/yarn/releases/download/v1.22.10/yarn-v1.22.10.tar.gz'',
      path_env_seperator = '':''\<rparr>"

text \<open>
  A Linux host with JupyterLab 2: every download answers with status 200, an archive unpacks
  to the directory named after the release, with the executable in its \<open>bin\<close>, and every
  command of the package manager exits with 0 and leaves the files alone.
\<close>

definition example_host :: host where
  "example_host =
     \<lparr>sys_platform = ''linux'', jupyterlab_version = Some ''2.2.9'', GLOBAL_TOOLCHAIN = None,
      environ_PATH = ''/usr/bin'', working_directory = ''/home/user/nni'',
      exec_prefix = [''venv''], requests_installed = True,
      http_get = (\<lambda>url. Inr (200, url)),
      extractall = (\<lambda>format body dir fs.
        if format = Tar_gz then
          Inr (fs @ [(dir @ [''yarn-v1.22.10''], Dir), (dir @ [''yarn-v1.22.10'', ''bin''], Dir),
                     (dir @ [''yarn-v1.22.10'', ''bin'', ''yarn''], File (Data ''yarn''))])
        else
          Inr (fs @ [(dir @ [''node-v16.3.0-linux-x64''], Dir),
                     (dir @ [''node-v16.3.0-linux-x64'', ''bin''], Dir),
                     (dir @ [''node-v16.3.0-linux-x64'', ''bin'', ''node''], File (Data ''node''))])),
      run_process = (\<lambda>argv dir search_path fs. (Inr 0, fs)),
      format_exc = (\<lambda>e. ''Traceback (most recent call last)'')\<rparr>"

definition example_source_world :: world where
  "example_source_world =
     \<lparr>files = [([''ts''], Dir), ([''ts'', ''jupyter_extension''], Dir),
        ([''ts'', ''jupyter_extension'', ''package.json''], File (Json example_extension_manifest))],
      stdout = [], requests = []\<rparr>"

definition example_patched_manifest :: json where
  "example_patched_manifest =
     JObj [(''name'', JStr ''nni-jupyter-extension''),
           (''scripts'', JObj [(''build'', JStr ''tsc && jupyter labextension link .'')]),
           (''dependencies'', JObj [(''@jupyterlab/application'', JStr ''^2.3.0''),
              (''@jupyterlab/launcher'', JStr ''^2.3.0'')]),
           (''jupyterlab'', JObj [(''extension'', JBool True), (''outputDir'', JStr ''build'')])]"

definition example_patched_world :: world where
  "example_patched_world =
     \<lparr>files = [([''ts''], Dir), ([''ts'', ''jupyter_extension''], Dir),
        ([''ts'', ''jupyter_extension'', ''package.json''], File (Json example_patched_manifest)),
        ([''ts'', ''jupyter_extension'', ''.package_default.json''],
         File (Json example_extension_manifest))],
      stdout = [Json_line ''updated package.json with '' example_patched_manifest],
      requests = []\<rparr>"

definition example_fresh_world :: world where
  "example_fresh_world = \<lparr>files = [([''ts''], Dir)], stdout = [], requests = []\<rparr>"

text \<open>
  Which of the three ways the assemblers treat the notebook extension: the legacy layout of
  JupyterLab 2 (\<open>build\<close> and the system-wide extensions), the newer layout (\<open>dist\<close>), or
  nothing. The two functions give the branch each strategy takes: the conditions of lines
  244 and 247 for the copy strategy, and of lines 209 and 212 for the symlink strategy.
\<close>

datatype notebook_branch = Legacy | Newer | Skip

definition copy_branch :: "host \<Rightarrow> string option \<Rightarrow> filesystem \<Rightarrow> notebook_branch" where
  "copy_branch h version fs =
     (if jupyter_lab_major_version h = ''2'' then Legacy
      else if truthy version \<or> path_exists fs (jupyter_extension @ [''dist'']) then Newer
      else Skip)"

definition symlink_branch :: "host \<Rightarrow> filesystem \<Rightarrow> notebook_branch" where
  "symlink_branch h fs =
     (if jupyter_lab_major_version h = ''2'' then Legacy
      else if path_exists fs (jupyter_extension @ [''dist'']) then Newer
      else Skip)"

text \<open>The host of the example without JupyterLab, for which the script assumes \<open>3.x\<close>.\<close>

definition example_modern_host :: host where
  "example_modern_host = example_host\<lparr>jupyterlab_version := None\<rparr>"

definition example_built_world :: world where
  "example_built_world =
     \<lparr>files = [([''ts''], Dir), ([''ts'', ''nni_manager''], Dir),
        ([''ts'', ''nni_manager'', ''dist''], Dir),
        ([''ts'', ''nni_manager'', ''dist'', ''main.js''], File (Data ''js'')),
        ([''ts'', ''nni_manager'', ''node_modules''], Symlink [''cache'', ''node_modules'']),
        ([''ts'', ''nni_manager'', ''metrics.json''], File (Json (JArr []))),
        ([''ts'', ''webui''], Dir), ([''ts'', ''webui'', ''build''], Dir),
        ([''nni_node''], Dir), ([''nni_node'', ''main.js''], Symlink [''ts'', ''nni_manager'', ''dist'', ''main.js'']),
        ([''toolchain''], Dir), ([''toolchain'', ''node''], Dir),
        ([''toolchain'', ''node'', ''bin''], Dir),
        ([''toolchain'', ''node'', ''bin'', ''node''], File (Data ''node''))],
      stdout = [], requests = []\<rparr>"

text \<open>A path that \<open>rmtree\<close> can remove: no regular file and no link.\<close>

definition dir_or_absent :: "filesystem \<Rightarrow> path \<Rightarrow> bool" where
  "dir_or_absent fs p \<longleftrightarrow> lstat fs p = None \<or> lstat fs p = Some Dir"

text \<open>
  A checkout in which the modules are already compiled (the package manager of the example
  host changes no file) and the toolchain is downloaded.
\<close>

definition example_checkout :: world where
  "example_checkout =
     \<lparr>files =
        [([''ts''], Dir),
         ([''ts'', ''nni_manager''], Dir),
         ([''ts'', ''nni_manager'', ''package.json''], File (Json example_manifest)),
         ([''ts'', ''nni_manager'', ''config''], Dir),
         ([''ts'', ''nni_manager'', ''config'', ''default.yml''], File (Data ''yml'')),
         ([''ts'', ''nni_manager'', ''dist''], Dir),
         ([''ts'', ''nni_manager'', ''dist'', ''main.js''], File (Data ''js'')),
         ([''ts'', ''nni_manager'', ''dist'', ''nni_manager.tsbuildinfo''], File (Data ''cache'')),
         ([''ts'', ''nni_manager'', ''dist'', ''common''], Dir),
         ([''ts'', ''nni_manager'', ''dist'', ''common'', ''log.js''], File (Data ''js'')),
         ([''ts'', ''nni_manager'', ''node_modules''], Dir),
         ([''ts'', ''webui''], Dir),
         ([''ts'', ''webui'', ''build''], Dir),
         ([''ts'', ''webui'', ''build'', ''index.html''], File (Data ''html'')),
         ([''ts'', ''jupyter_extension''], Dir),
         ([''ts'', ''jupyter_extension'', ''package.json''], File (Json example_extension_manifest)),
         ([''ts'', ''jupyter_extension'', ''build''], Dir),
         ([''ts'', ''jupyter_extension'', ''dist''], Dir),
         ([''toolchain''], Dir),
         ([''toolchain'', ''node''], Dir),
         ([''toolchain'', ''node'', ''bin''], Dir),
         ([''toolchain'', ''node'', ''bin'', ''node''], File (Data ''node'')),
         ([''venv''], Dir), ([''venv'', ''share''], Dir), ([''venv'', ''share'', ''jupyter''], Dir),
         ([''venv'', ''share'', ''jupyter'', ''lab''], Dir),
         ([''venv'', ''share'', ''jupyter'', ''lab'', ''extensions''], Dir)],
      stdout = [], requests = []\<rparr>"

text \<open>The host of the example when \<open>yarn build\<close> fails in \<open>ts/nni_manager\<close>.\<close>

definition example_broken_host :: host where
  "example_broken_host =
     example_host\<lparr>run_process := (\<lambda>argv dir search_path fs.
       (Inr (if dir = nni_manager \<and> ''build'' \<in> set argv then 1 else 0), fs))\<rparr>"

text \<open>The same when the package manager fails in \<open>ts/jupyter_extension\<close> only.\<close>

definition example_optional_host :: host where
  "example_optional_host =
     example_host\<lparr>jupyterlab_version := None, run_process := (\<lambda>argv dir search_path fs.
       (Inr (if dir = jupyter_extension then 1 else 0), fs))\<rparr>"



text \<open>
  Parts of \<open>compile_ts\<close> and \<open>build\<close>, named to state what happens around a failure: the two
  mandatory modules (lines 171 to 182), the two calls of the package manager for the
  optional one (lines 184 and 185, the same as 188 and 189), the steps of \<open>build\<close> before
  \<open>compile_ts\<close> (lines 48 to 51) and the choice of the assembler (lines 53 to 56).
\<close>

definition compile_mandatory :: "host \<Rightarrow> profile \<Rightarrow> world \<Rightarrow> world res" where
  "compile_mandatory h pf w =
     and_then (print_msg h ''cyan'' ''Building NNI manager'' w) (\<lambda>w.
     and_then (yarn h pf nni_manager [] w) (\<lambda>w.
     and_then (yarn h pf nni_manager [''build''] w) (\<lambda>w.
     and_then (on_files (\<lambda>fs. Inr (rmtree_ignore_errors (nni_manager @ [''dist'', ''config'']) fs)) w) (\<lambda>w.
     and_then (on_files (copytree (nni_manager @ [''config'']) (nni_manager @ [''dist'', ''config''])) w) (\<lambda>w.
     and_then (print_msg h ''cyan'' ''Building web UI'' w) (\<lambda>w.
     and_then (yarn h pf webui [] w) (\<lambda>w.
     and_then (yarn h pf webui [''build''] w)
       (print_msg h ''cyan'' ''Building JupyterLab extension''))))))))"

definition yarn_jupyter_extension :: "host \<Rightarrow> profile \<Rightarrow> world \<Rightarrow> world res" where
  "yarn_jupyter_extension h pf w =
     and_then (yarn h pf jupyter_extension [] w) (yarn h pf jupyter_extension [''build''])"

definition before_compile :: "host \<Rightarrow> profile \<Rightarrow> string option \<Rightarrow> world \<Rightarrow> world res" where
  "before_compile h pf release w =
     and_then (if truthy release \<or> \<not> truthy (GLOBAL_TOOLCHAIN h) then download_toolchain h pf w
               else Inr w) (\<lambda>w.
     and_then (prepare_nni_node pf w) (update_package h))"

definition assemble :: "host \<Rightarrow> profile \<Rightarrow> string option \<Rightarrow> world \<Rightarrow> world res" where
  "assemble h pf release w =
     (if truthy release \<or> sys_platform h = ''win32'' then copy_nni_node h pf release w
      else symlink_nni_node h w)"

text \<open>The state in which a step ends, whether it returns or raises.\<close>

definition final :: "'s res \<Rightarrow> 's" where
  "final r = (case r of Inl (e, s) \<Rightarrow> s | Inr s \<Rightarrow> s)"

text \<open>No symbolic link is recorded at or below the directory \<open>d\<close>.\<close>

definition no_links_below :: "path \<Rightarrow> filesystem \<Rightarrow> bool" where
  "no_links_below d fs \<longleftrightarrow>
     list_all (\<lambda>(q, n). prefix d q \<longrightarrow> (case n of Symlink t \<Rightarrow> False | _ \<Rightarrow> True)) fs"

text \<open>
  What the loop over \<open>ts/nni_manager/dist\<close> has done for the entry \<open>name\<close>, from the
  filesystem \<open>fs\<close> to \<open>fs'\<close>: a directory is in \<open>nni_node\<close> with everything below it, a
  regular file is there with its content unless it is the build cache, and the build cache
  is not there.
\<close>

definition entry_copied :: "string \<Rightarrow> filesystem \<Rightarrow> filesystem \<Rightarrow> bool" where
  "entry_copied name fs fs' \<longleftrightarrow>
     (lstat fs (nni_manager @ [''dist'', name]) = Some Dir \<longrightarrow>
        (\<forall>r. lstat fs' (nni_node @ name # r) = lstat fs (nni_manager @ ''dist'' # name # r))) \<and>
     (\<forall>c. lstat fs (nni_manager @ [''dist'', name]) = Some (File c) \<and>
          name \<noteq> ''nni_manager.tsbuildinfo'' \<longrightarrow>
          lstat fs' (nni_node @ [name]) = Some (File c)) \<and>
     (lstat fs (nni_manager @ [''dist'', name]) \<noteq> Some Dir \<and>
        name = ''nni_manager.tsbuildinfo'' \<longrightarrow> lstat fs' (nni_node @ [name]) = None)"

text \<open>The checkout of the example after \<open>prepare_nni_node\<close>.\<close>

definition example_prepared :: world where
  "example_prepared =
     example_checkout\<lparr>files := files example_checkout @
       [([''nni_node''], Dir), ([''nni_node'', ''__init__.py''], File init_py),
        ([''nni_node'', ''node''], File (Data ''node''))]\<rparr>"

text \<open>
  What \<open>copy_nni_node\<close> has done for the entry \<open>name\<close> of \<open>ts/nni_manager/dist\<close>, from the
  filesystem \<open>fs\<close> to \<open>fs'\<close>: what was at or below a directory is in \<open>nni_node\<close> under the
  same name, a regular file is there with its content unless it is the build cache, and the
  build cache is not there.
\<close>

definition entry_assembled :: "string \<Rightarrow> filesystem \<Rightarrow> filesystem \<Rightarrow> bool" where
  "entry_assembled name fs fs' \<longleftrightarrow>
     (lstat fs (nni_manager @ [''dist'', name]) = Some Dir \<longrightarrow>
        (\<forall>r n. lstat fs (nni_manager @ ''dist'' # name # r) = Some n \<longrightarrow>
           lstat fs' (nni_node @ name # r) = Some n)) \<and>
     (\<forall>c. lstat fs (nni_manager @ [''dist'', name]) = Some (File c) \<and>
          name \<noteq> ''nni_manager.tsbuildinfo'' \<longrightarrow>
          lstat fs' (nni_node @ [name]) = Some (File c)) \<and>
     (lstat fs (nni_manager @ [''dist'', name]) \<noteq> Some Dir \<and>
        name = ''nni_manager.tsbuildinfo'' \<longrightarrow> lstat fs' (nni_node @ [name]) = None)"

text \<open>The same checkout when the build output of \<open>ts/nni_manager\<close> holds a \<open>package.json\<close>.\<close>

definition example_shadowing :: world where
  "example_shadowing =
     example_prepared\<lparr>files := files example_prepared @
       [([''ts'', ''nni_manager'', ''dist'', ''package.json''],
         File (Json (JObj [(''private'', JBool True)])))]\<rparr>"

text \<open>
  A checkout in which the notebook extension was never built, and the hosts on which the
  package manager fails for it: \<open>example_optional_host\<close> without JupyterLab, and the next
  one with JupyterLab 2.
\<close>

definition example_unbuilt :: world where
  "example_unbuilt =
     example_checkout\<lparr>files :=
       filter (\<lambda>(p, n). p \<noteq> [''ts'', ''jupyter_extension'', ''build''] \<and>
                        p \<noteq> [''ts'', ''jupyter_extension'', ''dist''])
         (files example_checkout)\<rparr>"

definition example_legacy_optional_host :: host where
  "example_legacy_optional_host = example_optional_host\<lparr>jupyterlab_version := Some ''2.2.9''\<rparr>"

section \<open>Properties\<close>

subsection \<open>Basic facts about results and the filesystem\<close>

lemma and_then_Inl [simp]: "and_then (Inl x) f = Inl x"
  by (simp add: and_then_def)

lemma and_then_Inr [simp]: "and_then (Inr s) f = f s"
  by (simp add: and_then_def)

lemma and_then_eq_Inr: "and_then r f = Inr s' \<longleftrightarrow> (\<exists>s. r = Inr s \<and> f s = Inr s')"
  by (cases r) auto

lemma lstat_update:
  "q \<noteq> [] \<Longrightarrow> lstat (AList.update q n fs) p = (if p = q then Some n else lstat fs p)"
  by (simp add: lstat_def update_conv')

lemma lstat_delete:
  "lstat (AList.delete q fs) p = (if p = q \<and> p \<noteq> [] then None else lstat fs p)"
  by (simp add: lstat_def delete_conv')

lemma map_of_remove_tree:
  "map_of (remove_tree d fs) p = (if prefix d p then None else map_of fs p)"
  unfolding remove_tree_def by (induction fs) auto

lemma lstat_remove_tree:
  "lstat (remove_tree d fs) p = (if prefix d p \<and> p \<noteq> [] then None else lstat fs p)"
  by (simp add: lstat_def map_of_remove_tree)

lemma realpath_plain: "\<not> is_symlink fs p \<Longrightarrow> realpath fs p = Some p"
  by (auto simp: realpath_def is_symlink_def split: option.splits node.splits)

lemma stat_plain: "\<not> is_symlink fs p \<Longrightarrow> stat fs p = lstat fs p"
  by (simp add: stat_def realpath_plain)

subsection \<open>The platform branch\<close>

text \<open>
  Claim C7. On \<open>linux\<close> and \<open>darwin\<close> the platform branch binds a non-empty executable
  name, a download URL that contains the pinned node version and ends in \<open>.tar.xz\<close>, and the
  tar.xz extractor; on \<open>win32\<close> the same with a URL ending in \<open>.zip\<close> and the ZIP
  extractor; on every other platform identifier it raises \<open>RuntimeError\<close> and binds nothing.
\<close>

theorem platform_branch_profile:
  "(platform = ''linux'' \<or> platform = ''darwin'' \<longrightarrow>
      (\<exists>pf. platform_branch platform = Inr pf \<and> node_executable pf \<noteq> [] \<and>
            sublist node_version (node_download_url pf) \<and>
            node_extractor pf = Tar_xz \<and> suffix ''.tar.xz'' (node_download_url pf))) \<and>
   (platform = ''win32'' \<longrightarrow>
      (\<exists>pf. platform_branch platform = Inr pf \<and> node_executable pf \<noteq> [] \<and>
            sublist node_version (node_download_url pf) \<and>
            node_extractor pf = Zip \<and> suffix ''.zip'' (node_download_url pf))) \<and>
   (platform \<noteq> ''linux'' \<and> platform \<noteq> ''darwin'' \<and> platform \<noteq> ''win32'' \<longrightarrow>
      platform_branch platform = Inl RuntimeError)"
proof -
  have url: "sublist node_version (a @ node_version @ b)" for a b
    by (rule sublist_appendI)
  show ?thesis
    unfolding platform_branch_def Let_def
    by (auto simp del: append_Cons append_Nil intro!: url suffix_appendI)
qed

theorem platform_branch_profile_witness:
  "(\<exists>pf. platform_branch ''darwin'' = Inr pf \<and> node_executable pf \<noteq> [] \<and>
         sublist node_version (node_download_url pf) \<and>
         node_extractor pf = Tar_xz \<and> suffix ''.tar.xz'' (node_download_url pf)) \<and>
   (\<exists>pf. platform_branch ''win32'' = Inr pf \<and> node_executable pf \<noteq> [] \<and>
         sublist node_version (node_download_url pf) \<and>
         node_extractor pf = Zip \<and> suffix ''.zip'' (node_download_url pf)) \<and>
   platform_branch ''freebsd13'' = Inl RuntimeError"
  using platform_branch_profile [of "''darwin''"] platform_branch_profile [of "''win32''"]
    platform_branch_profile [of "''freebsd13''"]
  by simp

subsection \<open>Reading what was written\<close>

lemma chase_end: "chase k fs p = Some q \<Longrightarrow> \<not> is_symlink fs q"
  by (induction k arbitrary: p) (auto simp: is_symlink_def split: option.splits node.splits)

lemma chase_update:
  "chase k fs p = Some q \<Longrightarrow> q \<noteq> [] \<Longrightarrow> chase k (AList.update q (File c) fs) p = Some q"
proof (induction k arbitrary: p)
  case 0
  then show ?case by simp
next
  case (Suc k)
  show ?case
  proof (cases "is_symlink fs p")
    case True
    then obtain t where t: "lstat fs p = Some (Symlink t)"
      by (auto simp: is_symlink_def split: option.splits node.splits)
    with Suc.prems have ch: "chase k fs t = Some q" by simp
    from chase_end [OF ch] True have "p \<noteq> q" by auto
    with t Suc.prems have "lstat (AList.update q (File c) fs) p = Some (Symlink t)"
      by (simp add: lstat_update)
    with Suc.IH [OF ch Suc.prems(2)] show ?thesis by simp
  next
    case False
    with Suc.prems have "q = p"
      by (auto simp: is_symlink_def split: option.splits node.splits)
    with Suc.prems show ?thesis by (simp add: lstat_update)
  qed
qed

lemma write_file_Inr:
  assumes "write_file p c fs = Inr fs'"
  obtains q where "realpath fs p = Some q" "q \<noteq> []" "fs' = AList.update q (File c) fs"
    "lstat fs q = None \<or> (\<exists>old. lstat fs q = Some (File old))"
  using assms unfolding write_file_def
  by (auto split: option.splits node.splits if_splits simp: lstat_def)

lemma read_after_write:
  assumes "write_file p c fs = Inr fs'"
  shows "read_file fs' p = Inr c"
proof -
  from assms obtain q where q: "realpath fs p = Some q" "q \<noteq> []"
    "fs' = AList.update q (File c) fs"
    by (rule write_file_Inr)
  then have "realpath fs' p = Some q"
    unfolding realpath_def by (simp del: chase.simps add: chase_update)
  with q show ?thesis
    by (simp add: read_file_def lstat_update)
qed

lemma on_files_Inr: "on_files f w = Inr w' \<longleftrightarrow> (\<exists>fs. f (files w) = Inr fs \<and> w' = w\<lparr>files := fs\<rparr>)"
  by (auto simp: on_files_def split: sum.splits prod.splits)

lemma pad_version_eq:
  "pad_version version =
     version @ concat (replicate (3 - length (split_sep CHR ''.'' version)) ''.0'')"
proof (induction version rule: pad_version.induct)
  case (1 version)
  have parts: "length (split_sep c s) = Suc (length (filter (\<lambda>x. x = c) s))" for c s
    by (induction s) auto
  show ?case
  proof (cases "length (split_sep CHR ''.'' version) < 3")
    case True
    then have "3 - length (split_sep CHR ''.'' version)
        = Suc (3 - length (split_sep CHR ''.'' (version @ ''.0'')))"
      by (simp add: parts)
    with True 1 show ?thesis
      by (subst pad_version.simps) simp
  next
    case False
    then show ?thesis
      by (subst pad_version.simps) simp
  qed
qed

lemma pad_version_parts: "3 \<le> length (split_sep CHR ''.'' (pad_version version))"
proof (induction version rule: pad_version.induct)
  case (1 version)
  then show ?case
    by (subst pad_version.simps) simp
qed

subsection \<open>Patching and restoring the extension manifest\<close>

lemma write_file_plain:
  "\<not> is_symlink fs p \<Longrightarrow> write_file p c fs = Inr fs' \<Longrightarrow>
     fs' = AList.update p (File c) fs \<and> p \<noteq> []"
  unfolding write_file_def
  by (auto simp: realpath_plain lstat_def split: option.splits node.splits if_splits)

lemma write_file_over:
  "lstat fs p = Some (File old) \<Longrightarrow> write_file p c fs = Inr (AList.update p (File c) fs)"
  unfolding write_file_def
  by (simp add: realpath_plain is_symlink_def)

lemma json_load_plain:
  "\<not> is_symlink fs p \<Longrightarrow> json_load fs p = Inr d \<longleftrightarrow> lstat fs p = Some (File (Json d))"
  unfolding json_load_def read_file_def
  by (auto simp: realpath_plain split: option.splits node.splits content.splits sum.splits)

lemma paths_differ: "package_json_path \<noteq> package_default_path"
  by (simp add: package_json_path_def package_default_path_def)

lemma print_json_files: "print_json msg d w = Inr w' \<Longrightarrow> files w' = files w"
  by (auto simp: print_json_def)

text \<open>
  Claim C2. With JupyterLab major version \<open>2\<close>, when neither the manifest
  \<open>ts/jupyter_extension/package.json\<close> nor the sidecar path is a symbolic link and
  \<open>update_package\<close> returns, \<open>restore_package\<close> run on its result returns too: the manifest is
  again the node it was before the patch (the same file with the same document), the sidecar
  \<open>.package_default.json\<close> does not exist, and no path other than the sidecar differs from
  before. With any other major version both functions return the world unchanged.
\<close>

theorem patch_restore_round_trip:
  "(jupyter_lab_major_version h = ''2'' \<and>
    \<not> is_symlink (files w) package_json_path \<and> \<not> is_symlink (files w) package_default_path \<and>
    update_package h w = Inr w1 \<longrightarrow>
      (\<exists>w2. restore_package h w1 = Inr w2 \<and>
         lstat (files w2) package_json_path = lstat (files w) package_json_path \<and>
         lstat (files w2) package_default_path = None \<and>
         (\<forall>p. p \<noteq> package_default_path \<longrightarrow> lstat (files w2) p = lstat (files w) p))) \<and>
   (jupyter_lab_major_version h \<noteq> ''2'' \<longrightarrow>
      update_package h w = Inr w \<and> restore_package h w = Inr w)"
proof (rule conjI; rule impI)
  assume "jupyter_lab_major_version h \<noteq> ''2''"
  then show "update_package h w = Inr w \<and> restore_package h w = Inr w"
    by (simp add: update_package_def restore_package_def)
next
  let ?P = package_json_path and ?S = package_default_path
  assume a: "jupyter_lab_major_version h = ''2'' \<and>
    \<not> is_symlink (files w) ?P \<and> \<not> is_symlink (files w) ?S \<and> update_package h w = Inr w1"
  then have two: "jupyter_lab_major_version h = ''2''"
    and nP: "\<not> is_symlink (files w) ?P" and nS: "\<not> is_symlink (files w) ?S"
    and up: "update_package h w = Inr w1"
    by simp_all
  from up two obtain d where load: "json_load (files w) ?P = Inr d"
    and up1: "and_then (on_files (json_dump d ?S) w) (\<lambda>w.
               (case patch_package d of
                  Inl e \<Rightarrow> Inl (e, w)
                | Inr patched \<Rightarrow>
                    and_then (on_files (json_dump patched ?P) w)
                      (print_json ''updated package.json with '' patched))) = Inr w1"
    by (cases "json_load (files w) ?P") (simp_all add: update_package_def)
  from up1 obtain fs1 where w1S: "write_file ?S (Json d) (files w) = Inr fs1"
    and up2: "(case patch_package d of
                  Inl e \<Rightarrow> Inl (e, w\<lparr>files := fs1\<rparr>)
                | Inr patched \<Rightarrow>
                    and_then (on_files (json_dump patched ?P) (w\<lparr>files := fs1\<rparr>))
                      (print_json ''updated package.json with '' patched)) = Inr w1"
    by (auto simp: and_then_eq_Inr on_files_Inr json_dump_def)
  from up2 obtain patched where
    up3: "and_then (on_files (json_dump patched ?P) (w\<lparr>files := fs1\<rparr>))
            (print_json ''updated package.json with '' patched) = Inr w1"
    by (cases "patch_package d") simp_all
  then obtain fs2 where w2P: "write_file ?P (Json patched) fs1 = Inr fs2"
    and f1: "files w1 = fs2"
    by (auto simp: and_then_eq_Inr on_files_Inr json_dump_def print_json_def)
  from load nP have P0: "lstat (files w) ?P = Some (File (Json d))"
    by (simp add: json_load_plain)
  from write_file_plain [OF nS w1S] have fs1: "fs1 = AList.update ?S (File (Json d)) (files w)"
    and S_ne: "?S \<noteq> []" by simp_all
  have P1: "lstat fs1 ?P = Some (File (Json d))"
    using P0 S_ne paths_differ by (simp add: fs1 lstat_update)
  then have "\<not> is_symlink fs1 ?P" by (simp add: is_symlink_def)
  from write_file_plain [OF this w2P] have fs2: "fs2 = AList.update ?P (File (Json patched)) fs1"
    and P_ne: "?P \<noteq> []" by simp_all
  have S2: "lstat fs2 ?S = Some (File (Json d))"
    using S_ne P_ne paths_differ by (simp add: fs2 fs1 lstat_update)
  then have "\<not> is_symlink fs2 ?S" by (simp add: is_symlink_def)
  with S2 have load2: "json_load fs2 ?S = Inr d"
    by (simp add: json_load_plain)
  have P2: "lstat fs2 ?P = Some (File (Json patched))"
    using P_ne by (simp add: fs2 lstat_update)
  let ?fs3 = "AList.update ?P (File (Json d)) fs2"
  let ?fs4 = "AList.delete ?S ?fs3"
  have w3: "write_file ?P (Json d) fs2 = Inr ?fs3"
    using P2 by (rule write_file_over)
  have S3: "lstat ?fs3 ?S = Some (File (Json d))"
    using S2 P_ne paths_differ by (simp add: lstat_update)
  then have un: "unlink ?S ?fs3 = Inr ?fs4"
    by (simp add: unlink_def)
  let ?w2 = "w1\<lparr>stdout := stdout w1 @ [Json_line ''stored package.json with '' d],
    files := ?fs4\<rparr>"
  have rest: "restore_package h w1 = Inr ?w2"
    using two load2 w3 un f1
    by (simp add: restore_package_def print_json_def on_files_def json_dump_def)
  have frame: "lstat ?fs4 p = lstat (files w) p" if "p \<noteq> ?S" for p
    using that P_ne S_ne P0
    by (simp add: lstat_delete lstat_update fs2 fs1)
  have gone: "lstat ?fs4 ?S = None"
    using S_ne by (simp add: lstat_delete)
  from rest frame gone paths_differ
  show "\<exists>w2. restore_package h w1 = Inr w2 \<and>
         lstat (files w2) ?P = lstat (files w) ?P \<and>
         lstat (files w2) ?S = None \<and>
         (\<forall>p. p \<noteq> ?S \<longrightarrow> lstat (files w2) p = lstat (files w) p)"
    by (intro exI [of _ ?w2]) simp
qed

theorem patch_restore_round_trip_witness:
  "jupyter_lab_major_version example_host = ''2'' \<and>
   \<not> is_symlink (files example_source_world) package_json_path \<and>
   \<not> is_symlink (files example_source_world) package_default_path \<and>
   update_package example_host example_source_world = Inr example_patched_world \<and>
   (\<exists>w2. restore_package example_host example_patched_world = Inr w2 \<and>
      lstat (files w2) package_json_path = Some (File (Json example_extension_manifest)) \<and>
      lstat (files w2) package_default_path = None)"
proof -
  have two: "jupyter_lab_major_version example_host = ''2''" by code_simp
  have nP: "\<not> is_symlink (files example_source_world) package_json_path" by code_simp
  have nS: "\<not> is_symlink (files example_source_world) package_default_path" by code_simp
  have up: "update_package example_host example_source_world = Inr example_patched_world"
    by code_simp
  have P0: "lstat (files example_source_world) package_json_path
      = Some (File (Json example_extension_manifest))"
    by code_simp
  from patch_restore_round_trip [of example_host example_source_world example_patched_world]
    two nP nS up P0
  show ?thesis by auto
qed

subsection \<open>Acquiring the toolchain twice\<close>

text \<open>
  Claim C5. When the node executable is a file at \<open>toolchain/node/<path in the archive>\<close>,
  \<open>download_toolchain\<close> returns the world as it is: no file is written, nothing is printed
  and no URL is requested. Hence, when a first call returns and leaves the executable
  there, a second call right after it changes nothing: the two calls together end in the
  world of the first, with the requests of the first.
\<close>

theorem download_toolchain_idempotent:
  "(is_file (files w) (toolchain @ [''node''] @ node_executable_in_tarball pf) \<longrightarrow>
      download_toolchain h pf w = Inr w) \<and>
   (download_toolchain h pf w = Inr w' \<and>
    is_file (files w') (toolchain @ [''node''] @ node_executable_in_tarball pf) \<longrightarrow>
      and_then (download_toolchain h pf w) (download_toolchain h pf) = Inr w')"
  by (simp add: download_toolchain_def)

theorem download_toolchain_idempotent_witness:
  "\<exists>w'. download_toolchain example_host linux_profile example_fresh_world = Inr w' \<and>
     requests w' = [node_download_url linux_profile, yarn_download_url linux_profile] \<and>
     is_file (files w') (toolchain @ [''node''] @ node_executable_in_tarball linux_profile) \<and>
     download_toolchain example_host linux_profile w' = Inr w' \<and>
     and_then (download_toolchain example_host linux_profile example_fresh_world)
       (download_toolchain example_host linux_profile) = Inr w'"
proof -
  have "case download_toolchain example_host linux_profile example_fresh_world of
          Inl x \<Rightarrow> False
        | Inr w' \<Rightarrow>
            requests w' = [node_download_url linux_profile, yarn_download_url linux_profile] \<and>
            is_file (files w') (toolchain @ [''node''] @ node_executable_in_tarball linux_profile)"
    by code_simp
  then obtain w' where
    run: "download_toolchain example_host linux_profile example_fresh_world = Inr w'"
    and req: "requests w' = [node_download_url linux_profile, yarn_download_url linux_profile]"
    and exe: "is_file (files w') (toolchain @ [''node''] @ node_executable_in_tarball linux_profile)"
    by (cases "download_toolchain example_host linux_profile example_fresh_world") auto
  from download_toolchain_idempotent [of w' linux_profile example_host w'] exe
  have again: "download_toolchain example_host linux_profile w' = Inr w'"
    by simp
  from download_toolchain_idempotent [of example_fresh_world linux_profile example_host w'] run exe
  have "and_then (download_toolchain example_host linux_profile example_fresh_world)
       (download_toolchain example_host linux_profile) = Inr w'"
    by simp
  with run req exe again show ?thesis by blast
qed

subsection \<open>The notebook branch of the two assemblers\<close>

text \<open>
  Claim C9, as stated, fails: without JupyterLab 2, with a release version and no
  \<open>ts/jupyter_extension/dist\<close>, the copy strategy takes the branch that copies \<open>dist\<close> (and
  raises \<open>FileNotFoundError\<close>), while the symlink strategy takes none and returns.
\<close>

theorem notebook_branch_counterexample:
  "copy_branch example_modern_host (Some ''2.0'') (files example_fresh_world)
     \<noteq> symlink_branch example_modern_host (files example_fresh_world) \<and>
   \<not> path_exists (files example_fresh_world) (jupyter_extension @ [''dist'']) \<and>
   copy_jupyter_extension example_modern_host (Some ''2.0'') example_fresh_world
     = Inl (FileNotFoundError, example_fresh_world) \<and>
   symlink_jupyter_extension example_modern_host example_fresh_world = Inr example_fresh_world"
  by code_simp

text \<open>
  Claim C9, amended. The branch functions describe the code: each assembler does what its
  branch says. The two strategies take the same branch exactly when the JupyterLab major
  version is \<open>2\<close>, or no release version is given, or \<open>ts/jupyter_extension/dist\<close> exists. With
  a release version and another JupyterLab, the copy strategy always takes the branch that
  copies \<open>dist\<close>, whether it exists or not.
\<close>

theorem notebook_branch_agreement:
  "copy_jupyter_extension h version w =
     (case copy_branch h version (files w) of
        Legacy \<Rightarrow>
          and_then (on_files (copytree (jupyter_extension @ [''build''])
                      (nni_node @ [''jupyter-extension'', ''build''])) w)
            (on_files (copytree (exec_prefix h @ [''share'', ''jupyter'', ''lab'', ''extensions''])
               (nni_node @ [''jupyter-extension'', ''extensions''])))
      | Newer \<Rightarrow>
          on_files (copytree (jupyter_extension @ [''dist''])
            (nni_node @ [''jupyter-extension''])) w
      | Skip \<Rightarrow> Inr w) \<and>
   symlink_jupyter_extension h w =
     (case symlink_branch h (files w) of
        Legacy \<Rightarrow>
          and_then (symlink (jupyter_extension @ [''build'']) (nni_node @ [''jupyter-extension'']) w)
            (symlink (exec_prefix h @ [''share'', ''jupyter'', ''lab'', ''extensions''])
               (nni_node @ [''jupyter-extension'', ''extensions'']))
      | Newer \<Rightarrow> symlink (jupyter_extension @ [''dist'']) (nni_node @ [''jupyter-extension'']) w
      | Skip \<Rightarrow> Inr w) \<and>
   (copy_branch h version (files w) = symlink_branch h (files w) \<longleftrightarrow>
      jupyter_lab_major_version h = ''2'' \<or> \<not> truthy version \<or>
      path_exists (files w) (jupyter_extension @ [''dist''])) \<and>
   (jupyter_lab_major_version h \<noteq> ''2'' \<and> truthy version \<longrightarrow>
      copy_branch h version (files w) = Newer)"
  by (simp add: copy_jupyter_extension_def symlink_jupyter_extension_def copy_branch_def
      symlink_branch_def)

theorem notebook_branch_agreement_witness:
  "jupyter_lab_major_version example_host = ''2'' \<and>
   copy_branch example_host (Some ''2.0'') (files example_fresh_world) = Legacy \<and>
   symlink_branch example_host (files example_fresh_world) = Legacy \<and>
   jupyter_lab_major_version example_modern_host \<noteq> ''2'' \<and> truthy (Some ''2.0'') \<and>
   copy_branch example_modern_host (Some ''2.0'') (files example_fresh_world) = Newer \<and>
   \<not> truthy None \<and>
   copy_branch example_modern_host None (files example_fresh_world) = Skip \<and>
   symlink_branch example_modern_host (files example_fresh_world) = Skip"
proof -
  have legacy: "jupyter_lab_major_version example_host = ''2''"
    and modern: "jupyter_lab_major_version example_modern_host \<noteq> ''2''"
    and some: "truthy (Some ''2.0'')" and none: "\<not> truthy None"
    and skip: "symlink_branch example_modern_host (files example_fresh_world) = Skip"
    and leg: "symlink_branch example_host (files example_fresh_world) = Legacy"
    by code_simp+
  from notebook_branch_agreement [of example_host "Some ''2.0''" example_fresh_world] legacy leg
  have a: "copy_branch example_host (Some ''2.0'') (files example_fresh_world) = Legacy"
    by simp
  from notebook_branch_agreement [of example_modern_host "Some ''2.0''" example_fresh_world]
    modern some
  have b: "copy_branch example_modern_host (Some ''2.0'') (files example_fresh_world) = Newer"
    by simp
  from notebook_branch_agreement [of example_modern_host None example_fresh_world] none skip
  have c: "copy_branch example_modern_host None (files example_fresh_world) = Skip"
    by simp
  from legacy modern some none skip leg a b c show ?thesis by simp
qed

subsection \<open>\<open>clean\<close>\<close>

lemma rmtree_ignore_errors_lstat:
  "lstat (rmtree_ignore_errors d fs) p =
     (if lstat fs d = Some Dir \<and> prefix d p \<and> p \<noteq> [] then None else lstat fs p)"
  by (auto simp: rmtree_ignore_errors_def lstat_remove_tree split: option.splits node.splits)

lemma clean_path_result:
  "\<exists>fs'. clean_path p fs = Inr fs' \<and>
     (p \<noteq> [] \<longrightarrow> lstat fs' p = None) \<and>
     (\<forall>q. lstat fs' q = None \<or> lstat fs' q = lstat fs q) \<and>
     (\<forall>q. \<not> prefix p q \<longrightarrow> lstat fs' q = lstat fs q)"
proof (cases "lstat fs p")
  case None
  then have "\<not> is_symlink fs p" by (simp add: is_symlink_def)
  with None have "clean_path p fs = Inr fs"
    by (simp add: clean_path_def is_file_def is_dir_def stat_plain)
  with None show ?thesis by simp
next
  case (Some n)
  show ?thesis
  proof (cases n)
    case (File c)
    with Some have "\<not> is_symlink fs p" by (simp add: is_symlink_def)
    with Some File have "clean_path p fs = Inr (AList.delete p fs)"
      by (simp add: clean_path_def is_file_def stat_plain unlink_def)
    then show ?thesis by (auto simp: lstat_delete)
  next
    case Dir
    with Some have "\<not> is_symlink fs p" by (simp add: is_symlink_def)
    with Some Dir have "clean_path p fs = Inr (remove_tree p fs)"
      by (simp add: clean_path_def is_file_def is_dir_def stat_plain rmtree_def)
    then show ?thesis by (auto simp: lstat_remove_tree)
  next
    case (Symlink t)
    with Some have "clean_path p fs = Inr (AList.delete p fs)"
      by (simp add: clean_path_def is_symlink_def unlink_def)
    then show ?thesis by (auto simp: lstat_delete)
  qed
qed

lemma clean_loop_result:
  "\<exists>fs'. for_each clean_path ps fs = Inr fs' \<and>
     (\<forall>p \<in> set ps. p \<noteq> [] \<longrightarrow> lstat fs' p = None) \<and>
     (\<forall>q. lstat fs' q = None \<or> lstat fs' q = lstat fs q) \<and>
     (\<forall>q. (\<forall>p \<in> set ps. \<not> prefix p q) \<longrightarrow> lstat fs' q = lstat fs q)"
proof (induction ps arbitrary: fs)
  case Nil
  then show ?case by simp
next
  case (Cons p ps)
  from clean_path_result [of p fs] obtain fs1 where
    one: "clean_path p fs = Inr fs1" and
    gone: "p \<noteq> [] \<longrightarrow> lstat fs1 p = None" and
    less: "\<forall>q. lstat fs1 q = None \<or> lstat fs1 q = lstat fs q" and
    same: "\<forall>q. \<not> prefix p q \<longrightarrow> lstat fs1 q = lstat fs q"
    by blast
  from Cons.IH [of fs1] obtain fs' where
    rest: "for_each clean_path ps fs1 = Inr fs'" and
    gone': "\<forall>p \<in> set ps. p \<noteq> [] \<longrightarrow> lstat fs' p = None" and
    less': "\<forall>q. lstat fs' q = None \<or> lstat fs' q = lstat fs1 q" and
    same': "\<forall>q. (\<forall>p \<in> set ps. \<not> prefix p q) \<longrightarrow> lstat fs' q = lstat fs1 q"
    by blast
  have run: "for_each clean_path (p # ps) fs = Inr fs'"
    using one rest by simp
  have a: "\<forall>r \<in> set (p # ps). r \<noteq> [] \<longrightarrow> lstat fs' r = None"
    using gone gone' less' by (metis set_ConsD)
  have b: "\<forall>q. lstat fs' q = None \<or> lstat fs' q = lstat fs q"
    using less less' by metis
  have c: "\<forall>q. (\<forall>r \<in> set (p # ps). \<not> prefix r q) \<longrightarrow> lstat fs' q = lstat fs q"
    using same same' by simp
  from run a b c show ?case by blast
qed

lemma generated_files_not_toolchain:
  "prefix toolchain q \<Longrightarrow> \<forall>p \<in> set generated_files. \<not> prefix p q"
  by (auto simp: toolchain_def generated_files_def prefix_def)

lemma generated_files_ne: "\<forall>p \<in> set generated_files. p \<noteq> []"
  by (simp add: generated_files_def)

text \<open>
  Claim C6. \<open>clean\<close> always returns. Afterwards no path of \<open>generated_files\<close> exists, and
  \<open>nni_node\<close> is not a directory any more: the path does not exist when it was a directory
  or missing before (on a regular file or a link of that name \<open>rmtree\<close> fails and the error
  is ignored), and nothing exists below it when it was a directory. Without \<open>clean_all\<close>
  every path at or below \<open>toolchain\<close> is as it was; with \<open>clean_all\<close> the directory
  \<open>toolchain\<close> is removed in the same way as \<open>nni_node\<close>.
\<close>

theorem clean_removes_generated:
  "\<exists>w'. clean clean_all w = Inr w' \<and>
     lstat (files w') nni_node \<noteq> Some Dir \<and>
     (dir_or_absent (files w) nni_node \<longrightarrow> lstat (files w') nni_node = None) \<and>
     (lstat (files w) nni_node = Some Dir \<longrightarrow>
        (\<forall>p. prefix nni_node p \<longrightarrow> lstat (files w') p = None)) \<and>
     (\<forall>p \<in> set generated_files. lstat (files w') p = None) \<and>
     (\<not> clean_all \<longrightarrow>
        (\<forall>p. prefix toolchain p \<longrightarrow> lstat (files w') p = lstat (files w) p)) \<and>
     (clean_all \<longrightarrow>
        lstat (files w') toolchain \<noteq> Some Dir \<and>
        (dir_or_absent (files w) toolchain \<longrightarrow> lstat (files w') toolchain = None) \<and>
        (lstat (files w) toolchain = Some Dir \<longrightarrow>
           (\<forall>p. prefix toolchain p \<longrightarrow> lstat (files w') p = None)))"
proof -
  let ?fs1 = "rmtree_ignore_errors nni_node (files w)"
  from clean_loop_result [of generated_files ?fs1] obtain fs2 where
    loop: "for_each clean_path generated_files ?fs1 = Inr fs2" and
    gone: "\<forall>p \<in> set generated_files. p \<noteq> [] \<longrightarrow> lstat fs2 p = None" and
    less: "\<forall>q. lstat fs2 q = None \<or> lstat fs2 q = lstat ?fs1 q" and
    same: "\<forall>q. (\<forall>p \<in> set generated_files. \<not> prefix p q) \<longrightarrow> lstat fs2 q = lstat ?fs1 q"
    by blast
  define fs3 where "fs3 = (if clean_all then rmtree_ignore_errors toolchain fs2 else fs2)"
  define w' where "w' = w\<lparr>files := fs3\<rparr>"
  have run: "clean clean_all w = Inr w'"
    using loop by (simp add: clean_def on_files_def w'_def fs3_def)
  have fw: "files w' = fs3"
    by (simp add: w'_def)
  have nn: "nni_node \<noteq> []" and tn: "toolchain \<noteq> []"
    by (simp_all add: nni_node_def toolchain_def)
  have apart: "\<not> prefix nni_node p" if "prefix toolchain p" for p
    using that by (auto simp: nni_node_def toolchain_def prefix_def)
  have less3: "lstat fs3 q = None \<or> lstat fs3 q = lstat fs2 q" for q
    by (simp add: fs3_def rmtree_ignore_errors_lstat)
  have less13: "lstat fs3 q = None \<or> lstat fs3 q = lstat ?fs1 q" for q
    using less [rule_format, of q] less3 [of q] by auto
  have c1: "lstat fs3 nni_node \<noteq> Some Dir"
    using nn less13 [of nni_node] by (auto simp: rmtree_ignore_errors_lstat split: if_splits)
  have c2: "lstat fs3 nni_node = None" if "dir_or_absent (files w) nni_node"
    using that nn less13 [of nni_node]
    by (auto simp: dir_or_absent_def rmtree_ignore_errors_lstat split: if_splits)
  have c3: "lstat fs3 p = None" if "lstat (files w) nni_node = Some Dir" "prefix nni_node p" for p
  proof -
    from that nn have "p \<noteq> []" by auto
    with that have "lstat ?fs1 p = None" by (simp add: rmtree_ignore_errors_lstat)
    with less13 [of p] show ?thesis by auto
  qed
  have c4: "lstat fs3 p = None" if "p \<in> set generated_files" for p
    using that gone generated_files_ne less3 [of p] by auto
  have c5: "lstat fs3 p = lstat (files w) p" if "\<not> clean_all" "prefix toolchain p" for p
  proof -
    from that(2) have "lstat fs2 p = lstat ?fs1 p"
      using same generated_files_not_toolchain by blast
    also have "\<dots> = lstat (files w) p"
      using apart [OF that(2)] by (simp add: rmtree_ignore_errors_lstat)
    finally show ?thesis using that(1) by (simp add: fs3_def)
  qed
  have t2: "lstat fs2 toolchain = lstat (files w) toolchain"
  proof -
    have "lstat fs2 toolchain = lstat ?fs1 toolchain"
      using same generated_files_not_toolchain [of toolchain] by simp
    also have "\<dots> = lstat (files w) toolchain"
      using apart [of toolchain] by (simp add: rmtree_ignore_errors_lstat)
    finally show ?thesis .
  qed
  have c6: "lstat fs3 toolchain \<noteq> Some Dir" if clean_all
    using that tn by (simp add: fs3_def rmtree_ignore_errors_lstat)
  have c7: "lstat fs3 toolchain = None" if clean_all "dir_or_absent (files w) toolchain"
    using that tn t2 by (auto simp: fs3_def rmtree_ignore_errors_lstat dir_or_absent_def)
  have c8: "lstat fs3 p = None" if clean_all "lstat (files w) toolchain = Some Dir"
    "prefix toolchain p" for p
  proof -
    from that tn have "p \<noteq> []" by auto
    with that t2 show ?thesis by (simp add: fs3_def rmtree_ignore_errors_lstat)
  qed
  have "clean clean_all w = Inr w' \<and>
     lstat (files w') nni_node \<noteq> Some Dir \<and>
     (dir_or_absent (files w) nni_node \<longrightarrow> lstat (files w') nni_node = None) \<and>
     (lstat (files w) nni_node = Some Dir \<longrightarrow>
        (\<forall>p. prefix nni_node p \<longrightarrow> lstat (files w') p = None)) \<and>
     (\<forall>p \<in> set generated_files. lstat (files w') p = None) \<and>
     (\<not> clean_all \<longrightarrow>
        (\<forall>p. prefix toolchain p \<longrightarrow> lstat (files w') p = lstat (files w) p)) \<and>
     (clean_all \<longrightarrow>
        lstat (files w') toolchain \<noteq> Some Dir \<and>
        (dir_or_absent (files w) toolchain \<longrightarrow> lstat (files w') toolchain = None) \<and>
        (lstat (files w) toolchain = Some Dir \<longrightarrow>
           (\<forall>p. prefix toolchain p \<longrightarrow> lstat (files w') p = None)))"
    unfolding fw
  proof (intro conjI impI allI ballI)
    show "clean clean_all w = Inr w'" by (rule run)
    show "lstat fs3 nni_node \<noteq> Some Dir" by (rule c1)
    show "lstat fs3 nni_node = None" if "dir_or_absent (files w) nni_node"
      using that by (rule c2)
    show "lstat fs3 p = None" if "lstat (files w) nni_node = Some Dir" "prefix nni_node p" for p
      using that by (rule c3)
    show "lstat fs3 p = None" if "p \<in> set generated_files" for p
      using that by (rule c4)
    show "lstat fs3 p = lstat (files w) p" if "\<not> clean_all" "prefix toolchain p" for p
      using that by (rule c5)
    show "lstat fs3 toolchain \<noteq> Some Dir" if clean_all
      using that by (rule c6)
    show "lstat fs3 toolchain = None" if clean_all "dir_or_absent (files w) toolchain"
      using that by (rule c7)
    show "lstat fs3 p = None" if clean_all "lstat (files w) toolchain = Some Dir"
      "prefix toolchain p" for p
      using that by (rule c8)
  qed
  then show ?thesis by (rule exI)
qed

theorem clean_removes_generated_witness:
  "dir_or_absent (files example_built_world) nni_node \<and>
   dir_or_absent (files example_built_world) toolchain \<and>
   (\<exists>w'. clean False example_built_world = Inr w' \<and>
      lstat (files w') nni_node = None \<and>
      lstat (files w') [''nni_node'', ''main.js''] = None \<and>
      lstat (files w') [''ts'', ''nni_manager'', ''dist''] = None \<and>
      lstat (files w') [''ts'', ''nni_manager'', ''node_modules''] = None \<and>
      lstat (files w') [''toolchain'', ''node'', ''bin'', ''node''] = Some (File (Data ''node''))) \<and>
   (\<exists>w'. clean True example_built_world = Inr w' \<and>
      lstat (files w') nni_node = None \<and>
      lstat (files w') [''ts'', ''webui'', ''build''] = None \<and>
      lstat (files w') toolchain = None \<and>
      lstat (files w') [''toolchain'', ''node'', ''bin'', ''node''] = None)"
proof -
  have n: "lstat (files example_built_world) nni_node = Some Dir"
    and t: "lstat (files example_built_world) toolchain = Some Dir"
    and e: "lstat (files example_built_world) [''toolchain'', ''node'', ''bin'', ''node'']
      = Some (File (Data ''node''))"
    by code_simp+
  have dn: "dir_or_absent (files example_built_world) nni_node"
    and dt: "dir_or_absent (files example_built_world) toolchain"
    using n t by (simp_all add: dir_or_absent_def)
  have g1: "[''ts'', ''nni_manager'', ''dist''] \<in> set generated_files"
    and g2: "[''ts'', ''nni_manager'', ''node_modules''] \<in> set generated_files"
    and g3: "[''ts'', ''webui'', ''build''] \<in> set generated_files"
    by (simp_all add: generated_files_def)
  have p1: "prefix nni_node [''nni_node'', ''main.js'']"
    and p2: "prefix toolchain [''toolchain'', ''node'', ''bin'', ''node'']"
    by (simp_all add: nni_node_def toolchain_def)
  from clean_removes_generated [of False example_built_world] obtain w1 where
    r1: "clean False example_built_world = Inr w1"
    and a1: "dir_or_absent (files example_built_world) nni_node \<longrightarrow>
      lstat (files w1) nni_node = None"
    and b1: "lstat (files example_built_world) nni_node = Some Dir \<longrightarrow>
        (\<forall>p. prefix nni_node p \<longrightarrow> lstat (files w1) p = None)"
    and c1: "\<forall>p \<in> set generated_files. lstat (files w1) p = None"
    and d1: "\<forall>p. prefix toolchain p \<longrightarrow>
      lstat (files w1) p = lstat (files example_built_world) p"
    by blast
  have first: "clean False example_built_world = Inr w1 \<and>
      lstat (files w1) nni_node = None \<and>
      lstat (files w1) [''nni_node'', ''main.js''] = None \<and>
      lstat (files w1) [''ts'', ''nni_manager'', ''dist''] = None \<and>
      lstat (files w1) [''ts'', ''nni_manager'', ''node_modules''] = None \<and>
      lstat (files w1) [''toolchain'', ''node'', ''bin'', ''node''] = Some (File (Data ''node''))"
    using r1 a1 [rule_format, OF dn] b1 [rule_format, OF n p1] c1 [rule_format, OF g1]
      c1 [rule_format, OF g2] d1 [rule_format, OF p2] e
    by simp
  from clean_removes_generated [of True example_built_world] obtain w2 where
    r2: "clean True example_built_world = Inr w2"
    and a2: "dir_or_absent (files example_built_world) nni_node \<longrightarrow>
      lstat (files w2) nni_node = None"
    and c2: "\<forall>p \<in> set generated_files. lstat (files w2) p = None"
    and d2: "dir_or_absent (files example_built_world) toolchain \<longrightarrow>
      lstat (files w2) toolchain = None"
    and e2: "lstat (files example_built_world) toolchain = Some Dir \<longrightarrow>
           (\<forall>p. prefix toolchain p \<longrightarrow> lstat (files w2) p = None)"
    by blast
  have second: "clean True example_built_world = Inr w2 \<and>
      lstat (files w2) nni_node = None \<and>
      lstat (files w2) [''ts'', ''webui'', ''build''] = None \<and>
      lstat (files w2) toolchain = None \<and>
      lstat (files w2) [''toolchain'', ''node'', ''bin'', ''node''] = None"
    using r2 a2 [rule_format, OF dn] c2 [rule_format, OF g3] d2 [rule_format, OF dt]
      e2 [rule_format, OF t p2]
    by simp
  from dn dt first second show ?thesis by blast
qed

subsection \<open>The steps of \<open>build\<close>\<close>

lemma and_then_assoc: "and_then (and_then r f) g = and_then r (\<lambda>s. and_then (f s) g)"
  by (cases r) simp_all

lemma and_then_eta: "and_then r (\<lambda>s. f s) = and_then r f"
  by simp

lemma compile_ts_split:
  "compile_ts h pf release w =
     and_then (compile_mandatory h pf w) (\<lambda>w.
       if truthy release then yarn_jupyter_extension h pf w
       else (case yarn_jupyter_extension h pf w of
               Inr w \<Rightarrow> Inr w
             | Inl (e, w) \<Rightarrow>
                 and_then (print_msg h ''yellow''
                   ''Failed to build JupyterLab extension, skip for develop mode'' w)
                   (print_msg h ''yellow'' (format_exc h e))))"
  unfolding compile_ts_def compile_mandatory_def yarn_jupyter_extension_def
  by (simp only: and_then_assoc)

lemma build_split:
  "build h pf release w =
     and_then (before_compile h pf release w) (\<lambda>w.
     and_then (compile_ts h pf release w) (\<lambda>w.
     and_then (assemble h pf release w) (restore_package h)))"
  unfolding build_def before_compile_def assemble_def
  by (simp only: and_then_assoc)

subsection \<open>A failing compilation leaves the manifest patched\<close>

text \<open>
  Claim C3 asks that \<open>restore_package\<close> runs on every exit of \<open>build\<close>. The code calls it as
  the last statement only. On the example host with JupyterLab 2, when \<open>yarn build\<close> fails
  in \<open>ts/nni_manager\<close>, \<open>build\<close> raises \<open>CalledProcessError\<close> and leaves the patched manifest
  and the sidecar file behind.
\<close>

theorem build_leaves_manifest_patched:
  "\<exists>w'. build example_broken_host linux_profile None example_checkout
          = Inl (CalledProcessError, w') \<and>
     lstat (files example_checkout) package_json_path
       = Some (File (Json example_extension_manifest)) \<and>
     lstat (files w') package_json_path = Some (File (Json example_patched_manifest)) \<and>
     lstat (files w') package_default_path = Some (File (Json example_extension_manifest)) \<and>
     example_patched_manifest \<noteq> example_extension_manifest"
proof -
  have "case build example_broken_host linux_profile None example_checkout of
          Inr w' \<Rightarrow> False
        | Inl (e, w') \<Rightarrow>
            e = CalledProcessError \<and>
            lstat (files example_checkout) package_json_path
              = Some (File (Json example_extension_manifest)) \<and>
            lstat (files w') package_json_path = Some (File (Json example_patched_manifest)) \<and>
            lstat (files w') package_default_path
              = Some (File (Json example_extension_manifest)) \<and>
            example_patched_manifest \<noteq> example_extension_manifest"
    by code_simp
  then show ?thesis
    by (cases "build example_broken_host linux_profile None example_checkout") auto
qed

subsection \<open>The lines a warning prints\<close>

lemma print_msg_yellow:
  "print_msg h ''yellow'' msg w =
     Inr (w\<lparr>stdout := stdout w @
       [Line (if sys_platform h = ''win32'' then msg
              else [CHR 0x1B] @ ''[1;'' @ ''33'' @ ''m# '' @ msg @ '' '' @ [CHR 0x1B] @ ''[0m'')]\<rparr>)"
  by (simp add: print_msg_def color_code_def)

lemma sublist_decorated: "sublist msg (if b then msg else a @ c @ d @ e @ msg @ f)"
proof (cases b)
  case True
  then show ?thesis by simp
next
  case False
  have "sublist msg ((a @ c @ d @ e) @ msg @ f)"
    by (rule sublist_appendI)
  with False show ?thesis by simp
qed

subsection \<open>The global toolchain still needs the local node\<close>









subsection \<open>What copying changes\<close>

lemma final_simps [simp]: "final (Inl (e, s)) = s" "final (Inr s) = s"
  by (simp_all add: final_def)

lemma final_and_then:
  "final (and_then r f) = (case r of Inl (e, s) \<Rightarrow> s | Inr s \<Rightarrow> final (f s))"
  by (cases r) auto

lemma lstat_append_new:
  assumes "q \<notin> fst ` set new"
  shows "lstat (fs @ new) q = lstat fs q"
proof -
  from assms have "map_of new q = None"
    by (simp add: map_of_eq_None_iff)
  then show ?thesis
    by (simp add: lstat_def map_add_def split: option.splits)
qed

lemma lstat_append_old:
  "lstat fs q \<noteq> None \<Longrightarrow> lstat (fs @ new) q = lstat fs q"
  by (auto simp: lstat_def map_add_def split: option.splits)

lemma mkdir_final: "\<exists>new. final (mkdir p fs) = fs @ new \<and> fst ` set new \<subseteq> {p}"
  by (auto simp: mkdir_def)

lemma make_ancestors_final:
  "\<exists>new. final (make_ancestors ds fs) = fs @ new \<and> fst ` set new \<subseteq> set ds"
proof (induction ds arbitrary: fs)
  case Nil
  then show ?case by simp
next
  case (Cons d ds)
  show ?case
  proof (cases "path_exists fs d")
    case True
    with Cons.IH [of fs] show ?thesis by auto
  next
    case False
    show ?thesis
    proof (cases "mkdir d fs")
      case (Inl x)
      with mkdir_final [of d fs] False show ?thesis
        by (cases x) auto
    next
      case (Inr fs1)
      with mkdir_final [of d fs] obtain new1 where
        n1: "fs1 = fs @ new1" "fst ` set new1 \<subseteq> {d}" by auto
      from Cons.IH [of fs1] obtain new2 where
        n2: "final (make_ancestors ds fs1) = fs1 @ new2" "fst ` set new2 \<subseteq> set ds" by auto
      have "final (make_ancestors (d # ds) fs) = fs @ (new1 @ new2)"
        using False Inr n1 n2 by simp
      moreover have "fst ` set (new1 @ new2) \<subseteq> set (d # ds)"
        using n1 n2 by auto
      ultimately show ?thesis by blast
    qed
  qed
qed

lemma makedirs_final:
  "\<exists>new. final (makedirs p fs) = fs @ new \<and> fst ` set new \<subseteq> set (prefixes p)"
proof (cases "make_ancestors (butlast (prefixes p)) fs")
  case (Inl x)
  with make_ancestors_final [of "butlast (prefixes p)" fs] show ?thesis
    by (cases x) (auto simp: makedirs_def dest: in_set_butlastD)
next
  case (Inr fs1)
  with make_ancestors_final [of "butlast (prefixes p)" fs] obtain new1 where
    n1: "fs1 = fs @ new1" "fst ` set new1 \<subseteq> set (butlast (prefixes p))" by auto
  from mkdir_final [of p fs1] obtain new2 where
    n2: "final (mkdir p fs1) = fs1 @ new2" "fst ` set new2 \<subseteq> {p}" by auto
  have "final (makedirs p fs) = fs @ (new1 @ new2)"
    using Inr n1 n2 by (simp add: makedirs_def)
  moreover have "fst ` set (new1 @ new2) \<subseteq> set (prefixes p)"
    using n1 n2 by (auto dest: in_set_butlastD)
  ultimately show ?thesis by blast
qed

lemma copytree_final:
  "\<exists>new. final (copytree src dst fs) = fs @ new \<and>
     (\<forall>q \<in> fst ` set new. prefix q dst \<or> prefix dst q)"
proof (cases "\<exists>s. stat fs src = Some Dir \<and> realpath fs src = Some s")
  case False
  then have "final (copytree src dst fs) = fs"
    by (auto simp: copytree_def split: option.splits node.splits)
  then show ?thesis by simp
next
  case True
  then obtain s where s: "stat fs src = Some Dir" "realpath fs src = Some s" by blast
  from makedirs_final [of dst fs] obtain new1 where
    n1: "final (makedirs dst fs) = fs @ new1" "fst ` set new1 \<subseteq> set (prefixes dst)" by blast
  show ?thesis
  proof (cases "makedirs dst fs")
    case (Inl x)
    with s n1 have "final (copytree src dst fs) = fs @ new1"
      by (cases x) (simp add: copytree_def)
    with n1 show ?thesis by (auto simp: in_set_prefixes)
  next
    case (Inr fs1)
    obtain ok ms where ms: "tree_members symloop_max fs s = (ok, ms)"
      by (cases "tree_members symloop_max fs s")
    let ?new2 = "map (\<lambda>(r, n). (dst @ r, n)) ms"
    from Inr n1 have "fs1 = fs @ new1" by simp
    with s Inr ms have "final (copytree src dst fs) = fs @ (new1 @ ?new2)"
      by (cases ok) (simp_all add: copytree_def)
    moreover have "\<forall>q \<in> fst ` set (new1 @ ?new2). prefix q dst \<or> prefix dst q"
      using n1 by (auto simp: in_set_prefixes)
    ultimately show ?thesis by blast
  qed
qed

lemma copytree_frame:
  assumes "\<not> prefix q dst" "\<not> prefix dst q"
  shows "lstat (final (copytree src dst fs)) q = lstat fs q"
proof -
  from copytree_final [of src dst fs] obtain new where
    new: "final (copytree src dst fs) = fs @ new"
    "\<forall>q \<in> fst ` set new. prefix q dst \<or> prefix dst q" by blast
  with assms have "q \<notin> fst ` set new" by blast
  with new show ?thesis by (simp add: lstat_append_new)
qed

lemma copytree_keeps:
  "lstat fs q \<noteq> None \<Longrightarrow> lstat (final (copytree src dst fs)) q = lstat fs q"
  using copytree_final [of src dst fs] by (auto simp: lstat_append_old)

lemma write_file_frame:
  "\<not> is_symlink fs p \<Longrightarrow> q \<noteq> p \<Longrightarrow> lstat (final (write_file p c fs)) q = lstat fs q"
  by (auto simp: write_file_def realpath_plain lstat_def update_conv'
      split: option.splits node.splits)

lemma copyfile_frame:
  "\<not> is_symlink fs dst \<Longrightarrow> q \<noteq> dst \<Longrightarrow> lstat (final (copyfile src dst fs)) q = lstat fs q"
  by (auto simp: copyfile_def write_file_frame split: sum.splits)

lemma copy_entry_frame:
  assumes "\<not> is_symlink fs (nni_node @ [name])"
    and "q \<noteq> nni_node" and "\<not> prefix (nni_node @ [name]) q"
  shows "lstat (final (copy_entry name fs)) q = lstat fs q"
proof (cases "q = []")
  case True
  then show ?thesis by (simp add: lstat_def)
next
  case False
  with assms(2,3) have "\<not> prefix q (nni_node @ [name])" "q \<noteq> nni_node @ [name]"
    by (auto simp: nni_node_def prefix_def Cons_eq_append_conv append_eq_Cons_conv)
  with assms show ?thesis
    by (simp add: copy_entry_def copytree_frame copyfile_frame)
qed

subsection \<open>Copying a directory without links\<close>

lemma lstat_append:
  "q \<noteq> [] \<Longrightarrow>
     lstat (fs @ new) q = (case lstat fs q of Some x \<Rightarrow> Some x | None \<Rightarrow> map_of new q)"
  by (simp add: lstat_def map_add_def split: option.splits)

lemma members_flags: "list_all fst (map (\<lambda>(q, n). (True, [g q n])) xs)"
  by (induction xs) auto

lemma members_concat:
  "concat (map snd (map (\<lambda>(q, n). (True, [g q n])) xs)) = map (\<lambda>(q, n). g q n) xs"
  by (induction xs) auto

lemma tree_members_plain:
  assumes "\<forall>(q, n) \<in> set fs. strict_prefix s q \<longrightarrow> (\<forall>t. n \<noteq> Symlink t)"
  shows "tree_members (Suc k) fs s =
    (True, map (\<lambda>(q, n). (drop (length s) q, n)) (filter (\<lambda>(q, n). strict_prefix s q) fs))"
proof -
  let ?member = "\<lambda>(q, n).
            let r = drop (length s) q in
            (case n of
               Symlink t \<Rightarrow>
                 (case (stat fs q, realpath fs q) of
                    (Some (File c), _) \<Rightarrow> (True, [(r, File c)])
                  | (Some Dir, Some d) \<Rightarrow>
                      (let (ok, ms) = tree_members k fs d
                       in (ok, (r, Dir) # map (\<lambda>(r', n'). (r @ r', n')) ms))
                  | _ \<Rightarrow> (False, []))
             | _ \<Rightarrow> (True, [(r, n)]))"
  let ?below = "filter (\<lambda>(q, n). strict_prefix s q) fs"
  have "?member e = (\<lambda>(q, n). (True, [(drop (length s) q, n)])) e" if "e \<in> set ?below" for e
  proof -
    obtain q n where e: "e = (q, n)" by (cases e)
    with that assms have "\<forall>t. n \<noteq> Symlink t" by auto
    then show ?thesis
      by (cases n) (simp_all add: e Let_def)
  qed
  then have eq: "map ?member ?below = map (\<lambda>(q, n). (True, [(drop (length s) q, n)])) ?below"
    by (intro map_cong refl)
  have "tree_members (Suc k) fs s =
      (list_all fst (map ?member ?below), concat (map snd (map ?member ?below)))"
    by (simp add: Let_def)
  also have "\<dots> = (list_all fst (map (\<lambda>(q, n). (True, [(drop (length s) q, n)])) ?below),
      concat (map snd (map (\<lambda>(q, n). (True, [(drop (length s) q, n)])) ?below)))"
    by (simp only: eq)
  also have "\<dots> = (True, map (\<lambda>(q, n). (drop (length s) q, n)) ?below)"
    by (simp only: members_flags members_concat)
  finally show ?thesis .
qed

lemma map_of_grafted:
  "map_of (map (\<lambda>(r, n). (dst @ r, n))
     (map (\<lambda>(q, n). (drop (length s) q, n)) (filter (\<lambda>(q, n). strict_prefix s q) fs)))
     (dst @ r) = (if r = [] then None else map_of fs (s @ r))"
proof (induction fs)
  case Nil
  then show ?case by simp
next
  case (Cons e fs)
  obtain q n where e: "e = (q, n)" by (cases e)
  show ?case
  proof (cases "strict_prefix s q")
    case True
    then obtain r' where r': "q = s @ r'" "r' \<noteq> []"
      by (auto simp: strict_prefix_def prefix_def)
    with Cons e True show ?thesis by auto
  next
    case False
    then have "r \<noteq> [] \<Longrightarrow> q \<noteq> s @ r"
      by (auto simp: strict_prefix_def)
    with Cons e False show ?thesis by auto
  qed
qed

lemma set_update_subset: "set (AList.update k v al) \<subseteq> insert (k, v) (set al)"
  by (induction al) auto

lemma no_links_below_plain:
  assumes "no_links_below d fs" "prefix d p" "p \<noteq> []"
  shows "\<not> is_symlink fs p"
proof
  assume "is_symlink fs p"
  then obtain t where "lstat fs p = Some (Symlink t)"
    by (auto simp: is_symlink_def split: option.splits node.splits)
  with assms(3) have "(p, Symlink t) \<in> set fs"
    by (simp add: lstat_def map_of_SomeD)
  with assms(1,2) show False
    by (auto simp: no_links_below_def list_all_iff)
qed

lemma copy_entry_dir:
  assumes out: "lstat fs nni_node = Some Dir"
    and fresh: "\<forall>r. lstat fs (nni_node @ name # r) = None"
    and nolinks: "no_links_below (nni_manager @ [''dist'']) fs"
    and dir: "lstat fs (nni_manager @ [''dist'', name]) = Some Dir"
  shows "copy_entry name fs =
    Inr (fs @ (nni_node @ [name], Dir) #
      map (\<lambda>(r, n). ((nni_node @ [name]) @ r, n))
        (map (\<lambda>(q, n). (drop (length (nni_manager @ [''dist'', name])) q, n))
          (filter (\<lambda>(q, n). strict_prefix (nni_manager @ [''dist'', name]) q) fs)))"
proof -
  let ?src = "nni_manager @ [''dist'', name]" and ?dst = "nni_node @ [name]"
  have src_plain: "\<not> is_symlink fs ?src"
    using dir by (simp add: is_symlink_def)
  have out_plain: "\<not> is_symlink fs nni_node"
    using out by (simp add: is_symlink_def)
  have st: "stat fs ?src = Some Dir" "realpath fs ?src = Some ?src"
    using dir src_plain by (simp_all add: stat_plain realpath_plain)
  have root: "path_exists fs []"
    by (simp add: path_exists_def stat_def realpath_def lstat_def)
  have outdir: "path_exists fs nni_node" "is_dir fs nni_node"
    using out out_plain by (simp_all add: path_exists_def is_dir_def stat_plain)
  have pre: "prefixes nni_node = [[], nni_node]"
    by (simp add: nni_node_def)
  have absent: "lstat fs ?dst = None"
    using fresh [rule_format, of "[]"] by simp
  have mk: "makedirs ?dst fs = Inr (fs @ [(?dst, Dir)])"
    using root outdir absent by (simp add: makedirs_def pre mkdir_def)
  have "\<forall>(q, n) \<in> set fs. strict_prefix ?src q \<longrightarrow> (\<forall>t. n \<noteq> Symlink t)"
    using nolinks
    by (auto simp: no_links_below_def list_all_iff strict_prefix_def prefix_def)
  from tree_members_plain [OF this, of 39]
  have tm: "tree_members symloop_max fs ?src =
    (True, map (\<lambda>(q, n). (drop (length ?src) q, n)) (filter (\<lambda>(q, n). strict_prefix ?src q) fs))"
    by (simp add: symloop_max_def del: tree_members.simps)
  have "is_dir fs ?src"
    using st by (simp add: is_dir_def)
  then show ?thesis
    using st mk tm
    by (simp add: copy_entry_def copytree_def del: tree_members.simps)
qed

lemma copy_entry_file:
  assumes out: "lstat fs nni_node = Some Dir"
    and absent: "lstat fs (nni_node @ [name]) = None"
    and regular: "lstat fs (nni_manager @ [''dist'', name]) = Some (File c)"
    and name: "name \<noteq> ''nni_manager.tsbuildinfo''"
  shows "copy_entry name fs = Inr (AList.update (nni_node @ [name]) (File c) fs)"
proof -
  let ?src = "nni_manager @ [''dist'', name]" and ?dst = "nni_node @ [name]"
  have src_plain: "\<not> is_symlink fs ?src"
    using regular by (simp add: is_symlink_def)
  have dst_plain: "\<not> is_symlink fs ?dst"
    using absent by (simp add: is_symlink_def)
  have out_plain: "\<not> is_symlink fs nni_node"
    using out by (simp add: is_symlink_def)
  have "\<not> is_dir fs ?src"
    using regular src_plain by (simp add: is_dir_def stat_plain)
  moreover have "\<not> samefile fs ?src ?dst"
    using absent dst_plain by (simp add: samefile_def path_exists_def stat_plain)
  moreover have "read_file fs ?src = Inr c"
    using regular src_plain by (simp add: read_file_def realpath_plain)
  moreover have "write_file ?dst c fs = Inr (AList.update ?dst (File c) fs)"
    using absent dst_plain out out_plain
    by (simp add: write_file_def realpath_plain is_dir_def stat_plain)
  ultimately show ?thesis
    using name by (simp add: copy_entry_def copyfile_def)
qed

lemma copy_entry_step:
  assumes out: "lstat fs nni_node = Some Dir"
    and fresh: "\<forall>r. lstat fs (nni_node @ name # r) = None"
    and nolinks: "no_links_below (nni_manager @ [''dist'']) fs"
    and run: "copy_entry name fs = Inr fs'"
  shows "(lstat fs (nni_manager @ [''dist'', name]) = Some Dir \<longrightarrow>
       (\<forall>r. lstat fs' (nni_node @ name # r) = lstat fs (nni_manager @ ''dist'' # name # r))) \<and>
     (\<forall>c. lstat fs (nni_manager @ [''dist'', name]) = Some (File c) \<and>
          name \<noteq> ''nni_manager.tsbuildinfo'' \<longrightarrow>
          lstat fs' (nni_node @ [name]) = Some (File c)) \<and>
     (lstat fs (nni_manager @ [''dist'', name]) \<noteq> Some Dir \<and>
        name = ''nni_manager.tsbuildinfo'' \<longrightarrow> fs' = fs) \<and>
     (\<forall>q. \<not> prefix (nni_node @ [name]) q \<longrightarrow> lstat fs' q = lstat fs q) \<and>
     no_links_below (nni_manager @ [''dist'']) fs'"
proof -
  let ?src = "nni_manager @ [''dist'', name]" and ?dst = "nni_node @ [name]"
  have absent: "lstat fs ?dst = None"
    using fresh [rule_format, of "[]"] by simp
  have src_plain: "\<not> is_symlink fs ?src"
    using nolinks by (rule no_links_below_plain) (simp_all add: nni_manager_def)
  have dst_ne: "?dst \<noteq> []" by simp
  have apart: "\<not> prefix (nni_manager @ [''dist'']) (?dst @ r)" for r
    by (simp add: nni_manager_def nni_node_def)
  consider (dir) "lstat fs ?src = Some Dir"
    | (regular) c where "lstat fs ?src = Some (File c)" "name \<noteq> ''nni_manager.tsbuildinfo''"
    | (skip) "lstat fs ?src \<noteq> Some Dir" "name = ''nni_manager.tsbuildinfo''"
    | (none) "lstat fs ?src = None" "name \<noteq> ''nni_manager.tsbuildinfo''"
    using src_plain
    by (cases "lstat fs ?src"; cases "name = ''nni_manager.tsbuildinfo''")
       (auto simp: is_symlink_def split: node.splits)
  then show ?thesis
  proof cases
    case dir
    let ?new = "(?dst, Dir) #
      map (\<lambda>(r, n). (?dst @ r, n))
        (map (\<lambda>(q, n). (drop (length ?src) q, n))
          (filter (\<lambda>(q, n). strict_prefix ?src q) fs))"
    from copy_entry_dir [OF out fresh nolinks dir] run have fs': "fs' = fs @ ?new"
      by simp
    have copied: "lstat fs' (nni_node @ name # r) = lstat fs (nni_manager @ ''dist'' # name # r)" for r
    proof -
      have "lstat fs (?dst @ r) = None"
        using fresh [rule_format, of r] by simp
      then have "lstat fs' (?dst @ r) = map_of ?new (?dst @ r)"
        by (simp add: fs' lstat_append del: map_map)
      also have "\<dots> = (if r = [] then Some Dir else map_of fs (?src @ r))"
        using map_of_grafted [of ?dst ?src fs r] by (simp del: map_map)
      also have "\<dots> = lstat fs (?src @ r)"
        using dir by (simp add: lstat_def)
      finally show ?thesis by simp
    qed
    have keys: "\<forall>q \<in> fst ` set ?new. prefix ?dst q"
      by auto
    have frame: "lstat fs' q = lstat fs q" if "\<not> prefix ?dst q" for q
    proof -
      from that keys have "q \<notin> fst ` set ?new" by blast
      then show ?thesis unfolding fs' by (rule lstat_append_new)
    qed
    have "\<forall>(q, n) \<in> set ?new. \<not> prefix (nni_manager @ [''dist'']) q"
      using apart by auto
    with nolinks have "no_links_below (nni_manager @ [''dist'']) fs'"
      unfolding fs' no_links_below_def list_all_iff by auto
    with dir copied frame show ?thesis by simp
  next
    case regular
    from copy_entry_file [OF out absent regular] run
    have fs': "fs' = AList.update ?dst (File c) fs" by simp
    have "no_links_below (nni_manager @ [''dist'']) fs'"
      using nolinks set_update_subset [of ?dst "File c" fs]
      unfolding fs' no_links_below_def list_all_iff by auto
    with regular show ?thesis
      by (simp add: fs' lstat_update)
  next
    case skip
    with src_plain have "\<not> is_dir fs ?src"
      by (simp add: is_dir_def stat_plain)
    with skip run have "fs' = fs"
      by (simp add: copy_entry_def)
    with skip nolinks show ?thesis by simp
  next
    case none
    with src_plain have "\<not> is_dir fs ?src" "read_file fs ?src = Inl FileNotFoundError"
      by (simp_all add: is_dir_def stat_plain read_file_def realpath_plain)
    with none run show ?thesis
      by (simp add: copy_entry_def copyfile_def split: if_splits)
  qed
qed

text \<open>What one round of the loop, or the whole loop, has done for the entry \<open>name\<close>.\<close>

lemma copy_loop:
  assumes "distinct names"
    and "lstat fs nni_node = Some Dir"
    and "\<forall>name \<in> set names. \<forall>r. lstat fs (nni_node @ name # r) = None"
    and "no_links_below (nni_manager @ [''dist'']) fs"
    and "for_each copy_entry names fs = Inr fs'"
  shows "(\<forall>name \<in> set names. entry_copied name fs fs') \<and>
     (\<forall>q. (\<forall>name \<in> set names. \<not> prefix (nni_node @ [name]) q) \<longrightarrow> lstat fs' q = lstat fs q)"
  using assms
proof (induction names arbitrary: fs)
  case Nil
  then show ?case by simp
next
  case (Cons m ms)
  from Cons.prems(5) obtain fs1 where
    one: "copy_entry m fs = Inr fs1" and rest: "for_each copy_entry ms fs1 = Inr fs'"
    by (auto simp: and_then_eq_Inr)
  from Cons.prems(1) have m: "m \<notin> set ms" and dist: "distinct ms"
    by simp_all
  from Cons.prems(3) have fresh_m: "\<forall>r. lstat fs (nni_node @ m # r) = None"
    by simp
  note step = copy_entry_step [OF Cons.prems(2) fresh_m Cons.prems(4) one]
  note s1 = step [THEN conjunct1]
  note s2 = step [THEN conjunct2, THEN conjunct1]
  note s3 = step [THEN conjunct2, THEN conjunct2, THEN conjunct1]
  note s4 = step [THEN conjunct2, THEN conjunct2, THEN conjunct2, THEN conjunct1, rule_format]
  note s5 = step [THEN conjunct2, THEN conjunct2, THEN conjunct2, THEN conjunct2]
  have src_same: "lstat fs1 (nni_manager @ ''dist'' # r) = lstat fs (nni_manager @ ''dist'' # r)" for r
    by (rule s4) (simp add: nni_manager_def nni_node_def)
  have "lstat fs1 nni_node = lstat fs nni_node"
    by (rule s4) simp
  with Cons.prems(2) have out1: "lstat fs1 nni_node = Some Dir"
    by simp
  have fresh1: "\<forall>name \<in> set ms. \<forall>r. lstat fs1 (nni_node @ name # r) = None"
  proof (intro ballI allI)
    fix name r assume n: "name \<in> set ms"
    with m have "name \<noteq> m" by auto
    then have "lstat fs1 (nni_node @ name # r) = lstat fs (nni_node @ name # r)"
      by (intro s4) simp
    also from Cons.prems(3) n have "\<dots> = None" by simp
    finally show "lstat fs1 (nni_node @ name # r) = None" .
  qed
  note ih = Cons.IH [OF dist out1 fresh1 s5 rest]
  note ih1 = ih [THEN conjunct1, rule_format]
  note ih2 = ih [THEN conjunct2, rule_format]
  have later: "lstat fs' (nni_node @ m # r) = lstat fs1 (nni_node @ m # r)" for r
  proof (rule ih2)
    fix name assume "name \<in> set ms"
    with m have "name \<noteq> m" by auto
    then show "\<not> prefix (nni_node @ [name]) (nni_node @ m # r)" by simp
  qed
  have head: "entry_copied m fs fs'"
    unfolding entry_copied_def
  proof (intro conjI impI allI)
    fix r assume "lstat fs (nni_manager @ [''dist'', m]) = Some Dir"
    with s1 have "lstat fs1 (nni_node @ m # r) = lstat fs (nni_manager @ ''dist'' # m # r)"
      by simp
    with later [of r]
    show "lstat fs' (nni_node @ m # r) = lstat fs (nni_manager @ ''dist'' # m # r)"
      by simp
  next
    fix c assume "lstat fs (nni_manager @ [''dist'', m]) = Some (File c) \<and>
      m \<noteq> ''nni_manager.tsbuildinfo''"
    with s2 have "lstat fs1 (nni_node @ [m]) = Some (File c)" by blast
    with later [of "[]"] show "lstat fs' (nni_node @ [m]) = Some (File c)" by simp
  next
    assume "lstat fs (nni_manager @ [''dist'', m]) \<noteq> Some Dir \<and>
      m = ''nni_manager.tsbuildinfo''"
    with s3 have "fs1 = fs" by blast
    with later [of "[]"] fresh_m [rule_format, of "[]"]
    show "lstat fs' (nni_node @ [m]) = None" by simp
  qed
  have tail: "entry_copied name fs fs'" if "name \<in> set ms" for name
  proof -
    have a: "lstat fs1 (nni_manager @ [''dist'', name]) = lstat fs (nni_manager @ [''dist'', name])"
      using src_same [of "[name]"] by simp
    have b: "lstat fs1 (nni_manager @ ''dist'' # name # r)
        = lstat fs (nni_manager @ ''dist'' # name # r)" for r
      using src_same [of "name # r"] by simp
    from ih1 [OF that] show ?thesis
      by (simp only: entry_copied_def a b)
  qed
  have frame: "lstat fs' q = lstat fs q"
    if "\<forall>name \<in> set (m # ms). \<not> prefix (nni_node @ [name]) q" for q
  proof -
    from that have "lstat fs' q = lstat fs1 q" by (intro ih2) simp
    also from that have "\<dots> = lstat fs q" by (intro s4) simp
    finally show ?thesis .
  qed
  from head tail frame show ?case by simp
qed

lemma children_iff: "name \<in> set (children fs d) \<longleftrightarrow> lstat fs (d @ [name]) \<noteq> None"
proof -
  have "name \<in> set (children fs d) \<longleftrightarrow> (\<exists>n. (d @ [name], n) \<in> set fs)"
  proof
    assume "name \<in> set (children fs d)"
    then obtain q n where "(q, n) \<in> set fs" "q \<noteq> []" "butlast q = d" "last q = name"
      by (auto simp: children_def)
    moreover from this have "q = d @ [name]"
      using append_butlast_last_id [of q] by simp
    ultimately show "\<exists>n. (d @ [name], n) \<in> set fs" by auto
  next
    assume "\<exists>n. (d @ [name], n) \<in> set fs"
    then obtain n where "(d @ [name], n) \<in> set fs" ..
    then have "name \<in> (\<lambda>(q, n). last q) ` {x \<in> set fs. case x of (q, n) \<Rightarrow> q \<noteq> [] \<and> butlast q = d}"
      by force
    then show "name \<in> set (children fs d)"
      by (simp add: children_def)
  qed
  also have "\<dots> \<longleftrightarrow> map_of fs (d @ [name]) \<noteq> None"
    by (metis map_of_eq_None_iff image_iff fst_conv prod.collapse weak_map_of_SomeI
        not_None_eq map_of_SomeD)
  finally show ?thesis by (simp add: lstat_def)
qed

lemma copy_dist_Inr:
  assumes "copy_dist w = Inr w1"
  shows "for_each copy_entry (children (files w) (nni_manager @ [''dist''])) (files w)
    = Inr (files w1)"
  using assms
  by (auto simp: copy_dist_def iterdir_def on_files_Inr split: sum.splits option.splits node.splits)

lemma copy_dist_copies:
  assumes out: "lstat (files w) nni_node = Some Dir"
    and fresh: "\<forall>name r. lstat (files w) (nni_manager @ [''dist'', name]) \<noteq> None \<longrightarrow>
      lstat (files w) (nni_node @ name # r) = None"
    and nolinks: "no_links_below (nni_manager @ [''dist'']) (files w)"
    and run: "copy_dist w = Inr w1"
  shows "(\<forall>name. lstat (files w) (nni_manager @ [''dist'', name]) \<noteq> None \<longrightarrow>
       entry_copied name (files w) (files w1)) \<and>
     (\<forall>q. (\<forall>name. lstat (files w) (nni_manager @ [''dist'', name]) \<noteq> None \<longrightarrow>
            \<not> prefix (nni_node @ [name]) q) \<longrightarrow>
          lstat (files w1) q = lstat (files w) q)"
proof -
  let ?names = "children (files w) (nni_manager @ [''dist''])"
  have mem: "name \<in> set ?names \<longleftrightarrow> lstat (files w) (nni_manager @ [''dist'', name]) \<noteq> None"
    for name
    using children_iff [of name "files w" "nni_manager @ [''dist'']"] by simp
  have "distinct ?names"
    by (simp add: children_def)
  moreover have "\<forall>name \<in> set ?names. \<forall>r. lstat (files w) (nni_node @ name # r) = None"
    using fresh mem by blast
  ultimately have
    "(\<forall>name \<in> set ?names. entry_copied name (files w) (files w1)) \<and>
     (\<forall>q. (\<forall>name \<in> set ?names. \<not> prefix (nni_node @ [name]) q) \<longrightarrow>
        lstat (files w1) q = lstat (files w) q)"
    using out nolinks copy_dist_Inr [OF run] by (intro copy_loop)
  then show ?thesis
    using mem by blast
qed

subsection \<open>The source manifest is not written\<close>

lemma final_on_files: "files (final (on_files f w)) = final (f (files w))"
  by (cases "f (files w)") (auto simp: on_files_def)

lemma unchanged_and_then:
  assumes "lstat (files (final r)) p = x"
    and "\<And>s. r = Inr s \<Longrightarrow> lstat (files (final (g s))) p = lstat (files s) p"
  shows "lstat (files (final (and_then r g))) p = x"
proof (cases r)
  case (Inl a)
  with assms(1) show ?thesis by simp
next
  case (Inr s)
  with assms show ?thesis by simp
qed

lemma copytree_unchanged:
  "\<not> prefix p dst \<Longrightarrow> \<not> prefix dst p \<Longrightarrow>
     lstat (files (final (on_files (copytree src dst) w))) p = lstat (files w) p"
  by (simp add: final_on_files copytree_frame)

lemma copy_jupyter_extension_unchanged:
  "lstat (files (final (copy_jupyter_extension h version w))) (nni_manager @ [''package.json''])
     = lstat (files w) (nni_manager @ [''package.json''])"
proof -
  have apart: "\<not> prefix (nni_manager @ [''package.json'']) (nni_node @ r)"
    "\<not> prefix (nni_node @ [x]) (nni_manager @ [''package.json''])"
    "\<not> prefix (nni_node @ [x, y]) (nni_manager @ [''package.json''])" for r x y
    by (simp_all add: nni_manager_def nni_node_def)
  show ?thesis
    unfolding copy_jupyter_extension_def
    by (auto intro!: unchanged_and_then copytree_unchanged apart)
qed

lemma yarn_unchanged:
  assumes "\<forall>argv dir search_path fs. lstat (snd (run_process h argv dir search_path fs)) p = lstat fs p"
  shows "lstat (files (final (yarn h pf dir args w))) p = lstat (files w) p"
proof -
  have "lstat (files (final (subprocess_run h argv dir sp w))) p = lstat (files w) p" for argv sp
    using assms [rule_format, of argv dir sp "files w"]
    by (auto simp: subprocess_run_def split: prod.splits sum.splits)
  then show ?thesis
    by (simp add: yarn_def)
qed

lemma copy_loop_unchanged:
  assumes "distinct names"
    and "\<forall>name \<in> set names. \<not> is_symlink fs (nni_node @ [name])"
    and "\<not> prefix nni_node q"
  shows "lstat (final (for_each copy_entry names fs)) q = lstat fs q"
  using assms(1,2)
proof (induction names arbitrary: fs)
  case Nil
  then show ?case by simp
next
  case (Cons m ms)
  from assms(3) have q: "q \<noteq> nni_node" "\<not> prefix (nni_node @ [name]) q" for name
    by (auto simp: prefix_def)
  from Cons.prems have one: "lstat (final (copy_entry m fs)) q = lstat fs q"
    by (intro copy_entry_frame q) simp
  show ?case
  proof (cases "copy_entry m fs")
    case (Inl a)
    with one show ?thesis by simp
  next
    case (Inr fs1)
    have "\<forall>name \<in> set ms. \<not> is_symlink fs1 (nni_node @ [name])"
    proof
      fix name assume n: "name \<in> set ms"
      with Cons.prems have "name \<noteq> m" "\<not> is_symlink fs (nni_node @ [name])" by auto
      moreover from this Cons.prems Inr
      have "lstat fs1 (nni_node @ [name]) = lstat fs (nni_node @ [name])"
        using copy_entry_frame [of fs m "nni_node @ [name]"] by (simp add: nni_node_def)
      ultimately show "\<not> is_symlink fs1 (nni_node @ [name])"
        by (simp add: is_symlink_def)
    qed
    with Cons.IH [of fs1] Cons.prems have "lstat (final (for_each copy_entry ms fs1)) q = lstat fs1 q"
      by simp
    with one Inr show ?thesis by simp
  qed
qed

lemma copy_dist_unchanged:
  assumes "\<forall>name. lstat (files w) (nni_manager @ [''dist'', name]) \<noteq> None \<longrightarrow>
      \<not> is_symlink (files w) (nni_node @ [name])"
    and "\<not> prefix nni_node q"
  shows "lstat (files (final (copy_dist w))) q = lstat (files w) q"
proof (cases "iterdir (files w) (nni_manager @ [''dist''])")
  case (Inl e)
  then show ?thesis by (simp add: copy_dist_def)
next
  case (Inr names)
  then have names: "names = children (files w) (nni_manager @ [''dist''])"
    by (auto simp: iterdir_def split: option.splits node.splits)
  then have "distinct names"
    by (simp add: children_def)
  moreover have "\<forall>name \<in> set names. \<not> is_symlink (files w) (nni_node @ [name])"
    using assms(1) children_iff [of _ "files w" "nni_manager @ [''dist'']"] names by simp
  ultimately have "lstat (final (for_each copy_entry names (files w))) q = lstat (files w) q"
    using assms(2) by (rule copy_loop_unchanged)
  with Inr show ?thesis
    by (simp add: copy_dist_def final_on_files)
qed

subsection \<open>What the later steps of \<open>copy_nni_node\<close> keep\<close>

lemma write_manifest_frame:
  assumes "\<not> is_symlink (files w) (nni_node @ [''package.json''])"
    and "q \<noteq> nni_node @ [''package.json'']"
  shows "lstat (files (final (write_manifest version w))) q = lstat (files w) q"
  using assms
  by (auto simp: write_manifest_def final_on_files json_dump_def write_file_frame
      split: sum.splits)

lemma copy_jupyter_extension_keeps:
  assumes "lstat (files w) q \<noteq> None"
  shows "lstat (files (final (copy_jupyter_extension h version w))) q = lstat (files w) q"
proof -
  have one: "lstat (files (final (on_files (copytree src dst) s))) q = lstat (files s) q"
    if "lstat (files s) q \<noteq> None" for src dst s
    using that by (simp add: final_on_files copytree_keeps)
  show ?thesis
  proof (cases "jupyter_lab_major_version h = ''2''")
    case True
    let ?first = "on_files (copytree (jupyter_extension @ [''build''])
      (nni_node @ [''jupyter-extension'', ''build''])) w"
    show ?thesis
    proof (cases ?first)
      case (Inl a)
      with one [OF assms, of "jupyter_extension @ [''build'']"
          "nni_node @ [''jupyter-extension'', ''build'']"] True
      show ?thesis by (simp add: copy_jupyter_extension_def)
    next
      case (Inr s)
      with one [OF assms, of "jupyter_extension @ [''build'']"
          "nni_node @ [''jupyter-extension'', ''build'']"]
      have s: "lstat (files s) q = lstat (files w) q" by simp
      with assms have "lstat (files s) q \<noteq> None" by simp
      from one [OF this] s Inr True show ?thesis
        by (simp add: copy_jupyter_extension_def)
    qed
  next
    case False
    with one [OF assms] show ?thesis
      by (simp add: copy_jupyter_extension_def)
  qed
qed

lemma copy_jupyter_extension_frame:
  assumes "name \<noteq> ''jupyter-extension''"
  shows "lstat (files (final (copy_jupyter_extension h version w))) (nni_node @ [name])
    = lstat (files w) (nni_node @ [name])"
proof -
  from assms have apart: "\<not> prefix (nni_node @ [name]) (nni_node @ ''jupyter-extension'' # r)"
    "\<not> prefix (nni_node @ ''jupyter-extension'' # r) (nni_node @ [name])" for r
    by (simp_all add: nni_node_def)
  show ?thesis
    unfolding copy_jupyter_extension_def
    using apart [of "[]"] apart [of "[''build'']"] apart [of "[''extensions'']"]
    by (auto intro!: unchanged_and_then copytree_unchanged)
qed

subsection \<open>The copy strategy and the build output of the manager\<close>

text \<open>
  Claim C8, as stated, fails for an entry of \<open>ts/nni_manager/dist\<close> named \<open>package.json\<close>:
  the loop copies it to \<open>nni_node/package.json\<close>, and line 237 then writes the manifest
  over the copy. In the example the entry holds another document than the manifest, the
  assembler returns, and \<open>nni_node/package.json\<close> holds the manifest with the version.
\<close>

theorem manifest_replaces_copied_entry:
  "lstat (files example_shadowing) (nni_manager @ [''dist'', ''package.json''])
     = Some (File (Json (JObj [(''private'', JBool True)]))) \<and>
   lstat (files example_shadowing) (nni_node @ [''package.json'']) = None \<and>
   \<not> isl (copy_nni_node example_host linux_profile (Some ''2.3'') example_shadowing) \<and>
   lstat (files (final (copy_nni_node example_host linux_profile (Some ''2.3'') example_shadowing)))
       (nni_node @ [''package.json''])
     = Some (File (Json (JObj [(''name'', JStr ''nni''), (''version'', JStr ''2.3.0''),
         (''main'', JStr ''index.js'')]))) \<and>
   lstat (files (final (copy_nni_node example_host linux_profile (Some ''2.3'') example_shadowing)))
       (nni_node @ [''main.js''])
     = Some (File (Data ''js''))"
  by code_simp

text \<open>
  Claim C8, amended. Let \<open>nni_node\<close> be a directory, let nothing exist in it under the name
  of an entry of \<open>ts/nni_manager/dist\<close>, let no symbolic link be at or below that directory,
  and let \<open>nni_node/package.json\<close> be no symbolic link (the state in which \<open>build\<close> calls the
  assembler). When \<open>copy_nni_node\<close> returns, every entry of \<open>dist\<close> other than one named
  \<open>package.json\<close> is in \<open>nni_node\<close>, provided the package manager leaves what is at and
  below its name in \<open>nni_node\<close> alone: a directory with everything below it, a regular file
  with its content, except the regular file \<open>nni_manager.tsbuildinfo\<close>, which is not in
  \<open>nni_node\<close>. And when the package manager leaves \<open>ts/nni_manager/package.json\<close> alone,
  that source manifest is the same after \<open>copy_nni_node\<close> as before, however
  \<open>copy_nni_node\<close> ends.
\<close>

theorem copy_strategy_copies_dist:
  "lstat (files w) nni_node = Some Dir \<and>
   (\<forall>name r. lstat (files w) (nni_manager @ [''dist'', name]) \<noteq> None \<longrightarrow>
      lstat (files w) (nni_node @ name # r) = None) \<and>
   no_links_below (nni_manager @ [''dist'']) (files w) \<and>
   \<not> is_symlink (files w) (nni_node @ [''package.json'']) \<longrightarrow>
     (\<forall>w'. copy_nni_node h pf version w = Inr w' \<longrightarrow>
        (\<forall>name. lstat (files w) (nni_manager @ [''dist'', name]) \<noteq> None \<and>
            name \<noteq> ''package.json'' \<and>
            (\<forall>argv dir search_path fs r.
               lstat (snd (run_process h argv dir search_path fs)) (nni_node @ name # r)
                 = lstat fs (nni_node @ name # r)) \<longrightarrow>
           entry_assembled name (files w) (files w'))) \<and>
     ((\<forall>argv dir search_path fs.
          lstat (snd (run_process h argv dir search_path fs)) (nni_manager @ [''package.json''])
            = lstat fs (nni_manager @ [''package.json''])) \<longrightarrow>
        lstat (files (final (copy_nni_node h pf version w))) (nni_manager @ [''package.json''])
          = lstat (files w) (nni_manager @ [''package.json'']))"
proof (intro impI conjI allI)
  let ?M = "nni_manager @ [''package.json'']"
  let ?out = "nni_node @ [''package.json'']"
  let ?args = "[''--prod'', ''--cwd'', joinpath h (working_directory h) ''nni_node'']"
  assume hyp: "lstat (files w) nni_node = Some Dir \<and>
   (\<forall>name r. lstat (files w) (nni_manager @ [''dist'', name]) \<noteq> None \<longrightarrow>
      lstat (files w) (nni_node @ name # r) = None) \<and>
   no_links_below (nni_manager @ [''dist'']) (files w) \<and>
   \<not> is_symlink (files w) (nni_node @ [''package.json''])"
  then have out: "lstat (files w) nni_node = Some Dir"
    and fresh: "\<forall>name r. lstat (files w) (nni_manager @ [''dist'', name]) \<noteq> None \<longrightarrow>
      lstat (files w) (nni_node @ name # r) = None"
    and nolinks: "no_links_below (nni_manager @ [''dist'']) (files w)"
    and plain: "\<not> is_symlink (files w) ?out"
    by simp_all
  have copies: "(\<forall>name. lstat (files w) (nni_manager @ [''dist'', name]) \<noteq> None \<longrightarrow>
       entry_copied name (files w) (files s)) \<and>
     (\<forall>q. (\<forall>name. lstat (files w) (nni_manager @ [''dist'', name]) \<noteq> None \<longrightarrow>
            \<not> prefix (nni_node @ [name]) q) \<longrightarrow>
          lstat (files s) q = lstat (files w) q)"
    if "copy_dist v = Inr s" "files v = files w" for v s
    using copy_dist_copies [of v s] that out fresh nolinks by simp
  obtain v where v: "print_msg h ''cyan'' ''Copying files'' w = Inr v" "files v = files w"
    by (simp add: print_msg_def color_code_def)
  have still_plain: "\<not> is_symlink (files s) ?out" if run: "copy_dist v = Inr s" for s
  proof (cases "lstat (files w) (nni_manager @ [''dist'', ''package.json''])")
    case None
    then have "\<forall>name. lstat (files w) (nni_manager @ [''dist'', name]) \<noteq> None \<longrightarrow>
        \<not> prefix (nni_node @ [name]) ?out"
      by auto
    with copies [OF run v(2)] have "lstat (files s) ?out = lstat (files w) ?out"
      by blast
    with plain show ?thesis by (simp add: is_symlink_def)
  next
    case (Some n)
    with copies [OF run v(2)] have e: "entry_copied ''package.json'' (files w) (files s)"
      by simp
    have "\<not> is_symlink (files w) (nni_manager @ [''dist'', ''package.json''])"
      using nolinks by (rule no_links_below_plain) (simp_all add: nni_manager_def)
    with Some consider "n = Dir" | c where "n = File c"
      by (cases n) (auto simp: is_symlink_def)
    then show ?thesis
    proof cases
      case 1
      with Some e have "lstat (files s) (nni_node @ ''package.json'' # []) = Some Dir"
        unfolding entry_copied_def by simp
      then show ?thesis by (simp add: is_symlink_def)
    next
      case 2
      with Some e have "lstat (files s) ?out = Some (File c)"
        unfolding entry_copied_def by simp
      then show ?thesis by (simp add: is_symlink_def)
    qed
  qed
  { fix w' name
    assume run: "copy_nni_node h pf version w = Inr w'"
    assume entry: "lstat (files w) (nni_manager @ [''dist'', name]) \<noteq> None \<and>
            name \<noteq> ''package.json'' \<and>
            (\<forall>argv dir search_path fs r.
               lstat (snd (run_process h argv dir search_path fs)) (nni_node @ name # r)
                 = lstat fs (nni_node @ name # r))"
    then have there: "lstat (files w) (nni_manager @ [''dist'', name]) \<noteq> None"
      and other: "name \<noteq> ''package.json''"
      and pm: "\<And>r. \<forall>argv dir search_path fs.
               lstat (snd (run_process h argv dir search_path fs)) (nni_node @ name # r)
                 = lstat fs (nni_node @ name # r)"
      by simp_all
    from run v(1) obtain w1 w2 w3 w4 where
      s1: "copy_dist v = Inr w1"
      and s2: "write_manifest version w1 = Inr w2"
      and s3: "yarn h pf nni_manager ?args w2 = Inr w3"
      and s4: "on_files (copytree (webui @ [''build'']) (nni_node @ [''static''])) w3 = Inr w4"
      and s5: "copy_jupyter_extension h version w4 = Inr w'"
      by (auto simp: copy_nni_node_def and_then_eq_Inr)
    from copies [OF s1 v(2)] there have copied: "entry_copied name (files w) (files w1)"
      by simp
    have k2: "lstat (files w2) (nni_node @ name # r) = lstat (files w1) (nni_node @ name # r)" for r
      using write_manifest_frame [OF still_plain [OF s1], of "nni_node @ name # r" version] s2 other
      by simp
    have k3: "lstat (files w3) (nni_node @ name # r) = lstat (files w2) (nni_node @ name # r)" for r
      using yarn_unchanged [OF pm, of pf nni_manager ?args w2 r] s3 by simp
    have k4: "lstat (files w4) q = lstat (files w3) q" if "lstat (files w3) q \<noteq> None" for q
      using that s4 copytree_keeps [of "files w3" q "webui @ [''build'']" "nni_node @ [''static'']"]
        final_on_files [of "copytree (webui @ [''build'']) (nni_node @ [''static''])" w3]
      by simp
    have k5: "lstat (files w') q = lstat (files w4) q" if "lstat (files w4) q \<noteq> None" for q
      using copy_jupyter_extension_keeps [OF that, of h version] s5 by simp
    have kept: "lstat (files w') (nni_node @ name # r) = Some n"
      if "lstat (files w1) (nni_node @ name # r) = Some n" for r n
      using that k2 [of r] k3 [of r] k4 [of "nni_node @ name # r"] k5 [of "nni_node @ name # r"]
      by simp
    have dir: "lstat (files w') (nni_node @ name # r) = Some n"
      if "lstat (files w) (nni_manager @ [''dist'', name]) = Some Dir"
        "lstat (files w) (nni_manager @ ''dist'' # name # r) = Some n" for r n
    proof -
      from copied that(1)
      have "lstat (files w1) (nni_node @ name # r) = lstat (files w) (nni_manager @ ''dist'' # name # r)"
        unfolding entry_copied_def by blast
      with that(2) show ?thesis by (simp add: kept)
    qed
    have regular: "lstat (files w') (nni_node @ [name]) = Some (File c)"
      if "lstat (files w) (nni_manager @ [''dist'', name]) = Some (File c)"
        "name \<noteq> ''nni_manager.tsbuildinfo''" for c
    proof -
      from copied that have "lstat (files w1) (nni_node @ [name]) = Some (File c)"
        unfolding entry_copied_def by blast
      then have "lstat (files w1) (nni_node @ name # []) = Some (File c)" by simp
      from kept [OF this] show ?thesis by simp
    qed
    have cache: "lstat (files w') (nni_node @ [name]) = None"
      if "lstat (files w) (nni_manager @ [''dist'', name]) \<noteq> Some Dir"
        "name = ''nni_manager.tsbuildinfo''"
    proof -
      from copied that have "lstat (files w1) (nni_node @ [name]) = None"
        unfolding entry_copied_def by blast
      with k2 [of "[]"] k3 [of "[]"] have n3: "lstat (files w3) (nni_node @ [name]) = None"
        by simp
      from that(2) have apart: "\<not> prefix (nni_node @ [name]) (nni_node @ [''static''])"
        "\<not> prefix (nni_node @ [''static'']) (nni_node @ [name])"
        by (simp_all add: nni_node_def)
      from copytree_unchanged [OF apart, of "webui @ [''build'']" w3] s4 n3
      have n4: "lstat (files w4) (nni_node @ [name]) = None"
        by simp
      from that(2) have "name \<noteq> ''jupyter-extension''" by simp
      from copy_jupyter_extension_frame [OF this, of h version w4] s5 n4
      show ?thesis by simp
    qed
    show "entry_assembled name (files w) (files w')"
      unfolding entry_assembled_def
    proof (intro conjI impI allI)
      fix r n
      assume "lstat (files w) (nni_manager @ [''dist'', name]) = Some Dir"
        and "lstat (files w) (nni_manager @ ''dist'' # name # r) = Some n"
      then show "lstat (files w') (nni_node @ name # r) = Some n" by (rule dir)
    next
      fix c
      assume "lstat (files w) (nni_manager @ [''dist'', name]) = Some (File c) \<and>
        name \<noteq> ''nni_manager.tsbuildinfo''"
      then show "lstat (files w') (nni_node @ [name]) = Some (File c)"
        using regular [of c] by (elim conjE)
    next
      assume "lstat (files w) (nni_manager @ [''dist'', name]) \<noteq> Some Dir \<and>
        name = ''nni_manager.tsbuildinfo''"
      then show "lstat (files w') (nni_node @ [name]) = None"
        using cache by (elim conjE)
    qed }
  assume pm: "\<forall>argv dir search_path fs.
          lstat (snd (run_process h argv dir search_path fs)) ?M = lstat fs ?M"
  have outside: "\<not> prefix nni_node ?M"
    by (simp add: nni_node_def nni_manager_def)
  have fresh_plain: "\<forall>name. lstat (files v) (nni_manager @ [''dist'', name]) \<noteq> None \<longrightarrow>
      \<not> is_symlink (files v) (nni_node @ [name])"
    using fresh [rule_format, of _ "[]"] v(2) by (auto simp: is_symlink_def)
  have differ: "?M \<noteq> ?out"
    by (simp add: nni_manager_def nni_node_def)
  have apart: "\<not> prefix ?M (nni_node @ [''static''])" "\<not> prefix (nni_node @ [''static'']) ?M"
    by (simp_all add: nni_manager_def nni_node_def)
  have "lstat (files (final (and_then (copy_dist v) (\<lambda>w.
     and_then (write_manifest version w) (\<lambda>w.
     and_then (yarn h pf nni_manager ?args w) (\<lambda>w.
     and_then (on_files (copytree (webui @ [''build'']) (nni_node @ [''static''])) w)
       (copy_jupyter_extension h version))))))) ?M = lstat (files w) ?M"
  proof (rule unchanged_and_then)
    show "lstat (files (final (copy_dist v))) ?M = lstat (files w) ?M"
      using copy_dist_unchanged [OF fresh_plain outside] v(2) by simp
  next
    fix s assume "copy_dist v = Inr s"
    then have ns: "\<not> is_symlink (files s) ?out" by (rule still_plain)
    show "lstat (files (final (and_then (write_manifest version s) (\<lambda>w.
       and_then (yarn h pf nni_manager ?args w) (\<lambda>w.
       and_then (on_files (copytree (webui @ [''build'']) (nni_node @ [''static''])) w)
         (copy_jupyter_extension h version)))))) ?M = lstat (files s) ?M"
    proof (rule unchanged_and_then)
      show "lstat (files (final (write_manifest version s))) ?M = lstat (files s) ?M"
        using ns differ by (rule write_manifest_frame)
    next
      fix s2
      show "lstat (files (final (and_then (yarn h pf nni_manager ?args s2) (\<lambda>w.
         and_then (on_files (copytree (webui @ [''build'']) (nni_node @ [''static''])) w)
           (copy_jupyter_extension h version))))) ?M = lstat (files s2) ?M"
      proof (rule unchanged_and_then)
        show "lstat (files (final (yarn h pf nni_manager ?args s2))) ?M = lstat (files s2) ?M"
          using pm by (rule yarn_unchanged)
      next
        fix s3
        show "lstat (files (final (and_then
            (on_files (copytree (webui @ [''build'']) (nni_node @ [''static''])) s3)
            (copy_jupyter_extension h version)))) ?M = lstat (files s3) ?M"
        proof (rule unchanged_and_then)
          show "lstat (files (final
              (on_files (copytree (webui @ [''build'']) (nni_node @ [''static''])) s3))) ?M
              = lstat (files s3) ?M"
            using apart by (rule copytree_unchanged)
        next
          fix s4
          show "lstat (files (final (copy_jupyter_extension h version s4))) ?M
              = lstat (files s4) ?M"
            by (rule copy_jupyter_extension_unchanged)
        qed
      qed
    qed
  qed
  then show "lstat (files (final (copy_nni_node h pf version w))) ?M = lstat (files w) ?M"
    using v(1) by (simp add: copy_nni_node_def)
qed

theorem copy_strategy_copies_dist_witness:
  "lstat (files example_prepared) nni_node = Some Dir \<and>
   \<not> is_symlink (files example_prepared) (nni_node @ [''package.json'']) \<and>
   (\<exists>w'. copy_nni_node example_host linux_profile (Some ''2.3'') example_prepared = Inr w' \<and>
      lstat (files w') (nni_node @ [''main.js'']) = Some (File (Data ''js'')) \<and>
      lstat (files w') (nni_node @ [''common'']) = Some Dir \<and>
      lstat (files w') (nni_node @ [''common'', ''log.js'']) = Some (File (Data ''js'')) \<and>
      lstat (files w') (nni_node @ [''nni_manager.tsbuildinfo'']) = None \<and>
      lstat (files w') (nni_manager @ [''package.json'']) = Some (File (Json example_manifest)))"
proof -
  let ?w = example_prepared
  have out: "lstat (files ?w) nni_node = Some Dir"
    and nolinks: "no_links_below (nni_manager @ [''dist'']) (files ?w)"
    and plain: "\<not> is_symlink (files ?w) (nni_node @ [''package.json''])"
    and manifest: "lstat (files ?w) (nni_manager @ [''package.json''])
      = Some (File (Json example_manifest))"
    and src: "lstat (files ?w) (nni_manager @ [''dist'', ''main.js'']) = Some (File (Data ''js''))"
      "lstat (files ?w) (nni_manager @ [''dist'', ''common'']) = Some Dir"
      "lstat (files ?w) (nni_manager @ ''dist'' # ''common'' # []) = Some Dir"
      "lstat (files ?w) (nni_manager @ ''dist'' # ''common'' # [''log.js''])
        = Some (File (Data ''js''))"
      "lstat (files ?w) (nni_manager @ [''dist'', ''nni_manager.tsbuildinfo''])
        = Some (File (Data ''cache''))"
    by code_simp+
  have fresh: "\<forall>name r. lstat (files ?w) (nni_manager @ [''dist'', name]) \<noteq> None \<longrightarrow>
      lstat (files ?w) (nni_node @ name # r) = None"
    by (auto simp: example_prepared_def example_checkout_def lstat_def nni_manager_def
        nni_node_def split: if_splits)
  have pm: "\<forall>argv dir search_path fs.
      lstat (snd (run_process example_host argv dir search_path fs)) q = lstat fs q" for q
    by (simp add: example_host_def)
  have "case copy_nni_node example_host linux_profile (Some ''2.3'') ?w of
          Inl x \<Rightarrow> False | Inr w' \<Rightarrow> True"
    by code_simp
  then obtain w' where run: "copy_nni_node example_host linux_profile (Some ''2.3'') ?w = Inr w'"
    by (auto split: sum.splits)
  note inst = copy_strategy_copies_dist [of ?w example_host linux_profile "Some ''2.3''",
      rule_format, OF conjI [OF out conjI [OF fresh conjI [OF nolinks plain]]]]
  note copied = inst [THEN conjunct1, rule_format, OF run]
  note source = inst [THEN conjunct2, rule_format, OF pm [rule_format]]
  have keeps: "\<forall>argv dir search_path fs r.
      lstat (snd (run_process example_host argv dir search_path fs)) (nni_node @ name # r)
        = lstat fs (nni_node @ name # r)" for name
    by (simp add: example_host_def)
  have e1: "entry_assembled ''main.js'' (files ?w) (files w')"
    using src(1) keeps by (intro copied) simp
  have e2: "entry_assembled ''common'' (files ?w) (files w')"
    using src(2) keeps by (intro copied) simp
  have e3: "entry_assembled ''nni_manager.tsbuildinfo'' (files ?w) (files w')"
    using src(5) keeps by (intro copied) simp
  from e1 src(1) have a: "lstat (files w') (nni_node @ [''main.js'']) = Some (File (Data ''js''))"
    by (simp add: entry_assembled_def)
  from e2 src(2,3) have "lstat (files w') (nni_node @ ''common'' # []) = Some Dir"
    unfolding entry_assembled_def by blast
  then have b: "lstat (files w') (nni_node @ [''common'']) = Some Dir" by simp
  from e2 src(2,4) have "lstat (files w') (nni_node @ ''common'' # [''log.js''])
      = Some (File (Data ''js''))"
    unfolding entry_assembled_def by blast
  then have c: "lstat (files w') (nni_node @ [''common'', ''log.js'']) = Some (File (Data ''js''))"
    by simp
  from e3 src(5) have d: "lstat (files w') (nni_node @ [''nni_manager.tsbuildinfo'']) = None"
    by (simp add: entry_assembled_def)
  from source run manifest
  have f: "lstat (files w') (nni_manager @ [''package.json'']) = Some (File (Json example_manifest))"
    by simp
  from run a b c d f have "\<exists>w'. copy_nni_node example_host linux_profile (Some ''2.3'') ?w = Inr w' \<and>
      lstat (files w') (nni_node @ [''main.js'']) = Some (File (Data ''js'')) \<and>
      lstat (files w') (nni_node @ [''common'']) = Some Dir \<and>
      lstat (files w') (nni_node @ [''common'', ''log.js'']) = Some (File (Data ''js'')) \<and>
      lstat (files w') (nni_node @ [''nni_manager.tsbuildinfo'']) = None \<and>
      lstat (files w') (nni_manager @ [''package.json'']) = Some (File (Json example_manifest))"
    by blast
  with out plain show ?thesis
    by (intro conjI)
qed

subsection \<open>The version in the release manifest\<close>

lemma chase_append:
  "chase k fs p = Some q \<Longrightarrow> lstat fs q \<noteq> None \<Longrightarrow> chase k (fs @ new) p = Some q"
proof (induction k arbitrary: p)
  case 0
  then show ?case by simp
next
  case (Suc k)
  show ?case
  proof (cases "lstat fs p")
    case None
    with Suc.prems show ?thesis by simp
  next
    case (Some n)
    then have same: "lstat (fs @ new) p = Some n"
      by (simp add: lstat_append_old)
    show ?thesis
    proof (cases n)
      case (Symlink t)
      with Some Suc.prems have "chase k fs t = Some q" by simp
      from Suc.IH [OF this Suc.prems(2)] same Symlink show ?thesis by simp
    qed (use Some same Suc.prems in auto)
  qed
qed

lemma read_file_append:
  assumes "read_file fs p = Inr c"
  shows "read_file (fs @ new) p = Inr c"
proof -
  from assms obtain q where q: "chase (Suc symloop_max) fs p = Some q"
    and c: "lstat fs q = Some (File c)"
    unfolding read_file_def realpath_def
    by (auto split: option.splits node.splits)
  from c have "lstat fs q \<noteq> None" by simp
  from chase_append [OF q this] have "realpath (fs @ new) p = Some q"
    by (simp add: realpath_def)
  moreover from c have "lstat (fs @ new) q = Some (File c)"
    by (simp add: lstat_append_old)
  ultimately show ?thesis
    by (simp add: read_file_def)
qed

lemma copytree_appends:
  assumes "on_files (copytree src dst) w = Inr w'"
  shows "\<exists>new. files w' = files w @ new"
proof -
  from assms have "copytree src dst (files w) = Inr (files w')"
    by (auto simp: on_files_Inr)
  with copytree_final [of src dst "files w"] show ?thesis
    by auto
qed

lemma copy_jupyter_extension_appends:
  assumes "copy_jupyter_extension h version w = Inr w'"
  shows "\<exists>new. files w' = files w @ new"
proof (cases "jupyter_lab_major_version h = ''2''")
  case True
  with assms obtain w1 where
    one: "on_files (copytree (jupyter_extension @ [''build''])
            (nni_node @ [''jupyter-extension'', ''build''])) w = Inr w1"
    and two: "on_files (copytree (exec_prefix h @ [''share'', ''jupyter'', ''lab'', ''extensions''])
            (nni_node @ [''jupyter-extension'', ''extensions''])) w1 = Inr w'"
    by (auto simp: copy_jupyter_extension_def and_then_eq_Inr)
  from copytree_appends [OF one] copytree_appends [OF two] show ?thesis
    by auto
next
  case False
  with assms copytree_appends [of "jupyter_extension @ [''dist'']" "nni_node @ [''jupyter-extension'']" w w']
  show ?thesis
    by (auto simp: copy_jupyter_extension_def split: if_splits)
qed

lemma yarn_files:
  assumes "yarn h pf dir args w = Inr w'"
  shows "\<exists>argv search_path. files w' = snd (run_process h argv dir search_path (files w))"
proof -
  have "\<exists>argv' sp'. files w' = snd (run_process h argv' dir sp' (files w))"
    if "subprocess_run h argv dir sp w = Inr w'" for argv sp
    using that
    by (auto simp: subprocess_run_def split: prod.splits sum.splits if_splits intro: exI [of _ argv])
       (metis snd_conv)+
  with assms show ?thesis
    by (auto simp: yarn_def split: if_splits)
qed

text \<open>
  Claim C1. When \<open>copy_nni_node\<close> is given a non-empty version string and returns, and the
  package manager it calls leaves the content of \<open>nni_node/package.json\<close> alone, then the
  manifest in \<open>nni_node/package.json\<close> is a document whose version field was set to the
  padded input: the input followed by as many \<open>.0\<close> as it lacks parts to three, so that the
  result has at least three parts. In particular \<open>1\<close>, \<open>1.2\<close>, \<open>1.2.3\<close> and \<open>1.2.3.4\<close> give
  \<open>1.0.0\<close>, \<open>1.2.0\<close>, \<open>1.2.3\<close> and \<open>1.2.3.4\<close>.
\<close>

theorem manifest_version_padding:
  "(version \<noteq> [] \<and> copy_nni_node h pf (Some version) w = Inr w' \<and>
    (\<forall>argv dir search_path fs.
        read_file (snd (run_process h argv dir search_path fs)) (nni_node @ [''package.json''])
          = read_file fs (nni_node @ [''package.json''])) \<longrightarrow>
      (\<exists>src d. setitem src ''version'' (JStr (pad_version version)) = Inr d \<and>
         json_load (files w') (nni_node @ [''package.json'']) = Inr d \<and>
         getitem d ''version'' = Inr (JStr (pad_version version)))) \<and>
   pad_version version =
     version @ concat (replicate (3 - length (split_sep CHR ''.'' version)) ''.0'') \<and>
   3 \<le> length (split_sep CHR ''.'' (pad_version version)) \<and>
   pad_version ''1'' = ''1.0.0'' \<and> pad_version ''1.2'' = ''1.2.0'' \<and>
   pad_version ''1.2.3'' = ''1.2.3'' \<and> pad_version ''1.2.3.4'' = ''1.2.3.4''"
proof -
  let ?out = "nni_node @ [''package.json'']"
  let ?args = "[''--prod'', ''--cwd'', joinpath h (working_directory h) ''nni_node'']"
  have written: "\<exists>src d. setitem src ''version'' (JStr (pad_version version)) = Inr d \<and>
         json_load (files w') ?out = Inr d \<and>
         getitem d ''version'' = Inr (JStr (pad_version version))"
    if v: "version \<noteq> []" and run: "copy_nni_node h pf (Some version) w = Inr w'"
      and pm: "\<forall>argv dir search_path fs.
        read_file (snd (run_process h argv dir search_path fs)) ?out = read_file fs ?out"
  proof -
    from run obtain w1 w2 w3 w4 where
      s2: "write_manifest (Some version) w1 = Inr w2"
      and s3: "yarn h pf nni_manager ?args w2 = Inr w3"
      and s4: "on_files (copytree (webui @ [''build'']) (nni_node @ [''static''])) w3 = Inr w4"
      and s5: "copy_jupyter_extension h (Some version) w4 = Inr w'"
      by (auto simp: copy_nni_node_def and_then_eq_Inr)
    from s2 v obtain src d where
      d: "setitem src ''version'' (JStr (pad_version version)) = Inr d"
      and dump: "on_files (json_dump d ?out) w1 = Inr w2"
      unfolding write_manifest_def set_version_def
      by (auto split: sum.splits)
    from dump have r2: "read_file (files w2) ?out = Inr (Json d)"
      by (auto simp: on_files_Inr json_dump_def dest: read_after_write)
    from yarn_files [OF s3] pm r2 have r3: "read_file (files w3) ?out = Inr (Json d)"
      by auto
    from copytree_appends [OF s4] read_file_append [OF r3]
    have r4: "read_file (files w4) ?out = Inr (Json d)"
      by auto
    from copy_jupyter_extension_appends [OF s5] read_file_append [OF r4]
    have "read_file (files w') ?out = Inr (Json d)"
      by auto
    then have load: "json_load (files w') ?out = Inr d"
      by (simp add: json_load_def)
    from d have "getitem d ''version'' = Inr (JStr (pad_version version))"
      by (cases src) (auto simp: update_conv')
    with d load show ?thesis by blast
  qed
  have ex: "pad_version ''1'' = ''1.0.0''" "pad_version ''1.2'' = ''1.2.0''"
    "pad_version ''1.2.3'' = ''1.2.3''" "pad_version ''1.2.3.4'' = ''1.2.3.4''"
    by (simp_all add: pad_version.simps)
  from written have "version \<noteq> [] \<and> copy_nni_node h pf (Some version) w = Inr w' \<and>
    (\<forall>argv dir search_path fs.
        read_file (snd (run_process h argv dir search_path fs)) ?out = read_file fs ?out) \<longrightarrow>
      (\<exists>src d. setitem src ''version'' (JStr (pad_version version)) = Inr d \<and>
         json_load (files w') ?out = Inr d \<and>
         getitem d ''version'' = Inr (JStr (pad_version version)))"
    by blast
  with pad_version_eq [of version] pad_version_parts [of version] ex show ?thesis
    by (intro conjI)
qed

theorem manifest_version_padding_witness:
  "''1.2'' \<noteq> [] \<and>
   (\<exists>w'. copy_nni_node example_host linux_profile (Some ''1.2'') example_prepared = Inr w' \<and>
      (\<exists>d. json_load (files w') (nni_node @ [''package.json'']) = Inr d \<and>
         getitem d ''version'' = Inr (JStr ''1.2.0'')))"
proof -
  have "case copy_nni_node example_host linux_profile (Some ''1.2'') example_prepared of
          Inl x \<Rightarrow> False | Inr w' \<Rightarrow> True"
    by code_simp
  then obtain w' where
    run: "copy_nni_node example_host linux_profile (Some ''1.2'') example_prepared = Inr w'"
    by (auto split: sum.splits)
  have pm: "\<forall>argv dir search_path fs.
      read_file (snd (run_process example_host argv dir search_path fs)) (nni_node @ [''package.json''])
        = read_file fs (nni_node @ [''package.json''])"
    by (simp add: example_host_def)
  have pad: "pad_version ''1.2'' = ''1.2.0''"
    by code_simp
  have v: "''1.2'' \<noteq> []" by simp
  from manifest_version_padding [of "''1.2''" example_host linux_profile example_prepared w']
    v run pm pad
  have "\<exists>d. json_load (files w') (nni_node @ [''package.json'']) = Inr d \<and>
      getitem d ''version'' = Inr (JStr ''1.2.0'')"
    by auto
  with v run show ?thesis by blast
qed

subsection \<open>A failure of the package manager for the optional module\<close>

text \<open>
  Let \<open>build\<close> have reached \<open>compile_ts\<close>, the two mandatory modules be compiled, and the
  package manager then raise \<open>e\<close> for \<open>ts/jupyter_extension\<close>, leaving the world \<open>w2\<close>. With
  a release version, \<open>compile_ts\<close> and \<open>build\<close> raise \<open>e\<close> in that same world: nothing runs
  after the failure, neither assembler nor \<open>restore_package\<close>. Without a release version,
  \<open>compile_ts\<close> returns, having printed two more lines, the warning and the traceback, and
  \<open>build\<close> goes on with the assembler and \<open>restore_package\<close>.
\<close>

lemma failure_in_optional_module:
  assumes "before_compile h pf release w0 = Inr w" "compile_mandatory h pf w = Inr w1"
    "yarn_jupyter_extension h pf w1 = Inl (e, w2)"
  shows "truthy release \<Longrightarrow>
      compile_ts h pf release w = Inl (e, w2) \<and> build h pf release w0 = Inl (e, w2)"
    and "\<not> truthy release \<Longrightarrow>
      \<exists>l1 l2.
         sublist ''Failed to build JupyterLab extension, skip for develop mode'' l1 \<and>
         sublist (format_exc h e) l2 \<and>
         compile_ts h pf release w = Inr (w2\<lparr>stdout := stdout w2 @ [Line l1, Line l2]\<rparr>) \<and>
         build h pf release w0 =
           and_then (assemble h pf release (w2\<lparr>stdout := stdout w2 @ [Line l1, Line l2]\<rparr>))
             (restore_package h)"
proof -
  { assume "truthy release"
    with assms have "compile_ts h pf release w = Inl (e, w2)"
      by (simp add: compile_ts_split)
    with assms show "compile_ts h pf release w = Inl (e, w2) \<and> build h pf release w0 = Inl (e, w2)"
      by (simp add: build_split) }
  assume dev: "\<not> truthy release"
  let ?l1 = "if sys_platform h = ''win32''
    then ''Failed to build JupyterLab extension, skip for develop mode''
    else [CHR 0x1B] @ ''[1;'' @ ''33'' @ ''m# '' @
      ''Failed to build JupyterLab extension, skip for develop mode'' @ '' '' @ [CHR 0x1B] @ ''[0m''"
  let ?l2 = "if sys_platform h = ''win32'' then format_exc h e
    else [CHR 0x1B] @ ''[1;'' @ ''33'' @ ''m# '' @ format_exc h e @ '' '' @ [CHR 0x1B] @ ''[0m''"
  let ?w3 = "w2\<lparr>stdout := stdout w2 @ [Line ?l1, Line ?l2]\<rparr>"
  have s1: "sublist ''Failed to build JupyterLab extension, skip for develop mode'' ?l1"
    by (rule sublist_decorated)
  have s2: "sublist (format_exc h e) ?l2"
    by (rule sublist_decorated)
  have c: "compile_ts h pf release w = Inr ?w3"
    using assms dev by (simp add: compile_ts_split print_msg_yellow del: append_Cons append_Nil)
  then have b: "build h pf release w0 = and_then (assemble h pf release ?w3) (restore_package h)"
    using assms by (simp add: build_split del: append_Cons append_Nil)
  from s1 s2 c b
  show "\<exists>l1 l2.
           sublist ''Failed to build JupyterLab extension, skip for develop mode'' l1 \<and>
           sublist (format_exc h e) l2 \<and>
           compile_ts h pf release w = Inr (w2\<lparr>stdout := stdout w2 @ [Line l1, Line l2]\<rparr>) \<and>
           build h pf release w0 =
             and_then (assemble h pf release (w2\<lparr>stdout := stdout w2 @ [Line l1, Line l2]\<rparr>))
               (restore_package h)"
    by blast
qed

text \<open>
  Claim C4 asks that a development build completes when the package manager fails for the
  optional module. \<open>compile_ts\<close> catches the failure and prints that the module is skipped,
  and the branch for the newer layout links the output of the module only when it exists
  (line 212). The branch for JupyterLab 2 has no such test (lines 210 and 211): in a
  checkout where the module was never built, the link \<open>nni_node/jupyter-extension\<close> leads
  nowhere, the second link, named through it, raises \<open>FileNotFoundError\<close>, and \<open>build\<close>
  raises with it, after the outputs of the two mandatory modules were linked and before
  \<open>restore_package\<close>. On the same checkout without JupyterLab 2 the build returns.
\<close>

theorem develop_build_aborts_in_legacy_branch:
  "(\<exists>w w1 w2 w3 w'.
      before_compile example_legacy_optional_host linux_profile None example_unbuilt = Inr w \<and>
      compile_mandatory example_legacy_optional_host linux_profile w = Inr w1 \<and>
      yarn_jupyter_extension example_legacy_optional_host linux_profile w1
        = Inl (CalledProcessError, w2) \<and>
      compile_ts example_legacy_optional_host linux_profile None w = Inr w3 \<and>
      build example_legacy_optional_host linux_profile None example_unbuilt
        = Inl (FileNotFoundError, w') \<and>
      lstat (files w') (nni_node @ [''main.js''])
        = Some (Symlink (nni_manager @ [''dist'', ''main.js''])) \<and>
      lstat (files w') (nni_node @ [''static'']) = Some (Symlink (webui @ [''build''])) \<and>
      lstat (files w') (nni_node @ [''jupyter-extension''])
        = Some (Symlink (jupyter_extension @ [''build''])) \<and>
      lstat (files w') (jupyter_extension @ [''build'']) = None \<and>
      lstat (files w') package_json_path = Some (File (Json example_patched_manifest)) \<and>
      lstat (files w') package_default_path = Some (File (Json example_extension_manifest))) \<and>
   (\<exists>w'. build example_optional_host linux_profile None example_unbuilt = Inr w' \<and>
      lstat (files w') (nni_node @ [''main.js''])
        = Some (Symlink (nni_manager @ [''dist'', ''main.js''])) \<and>
      lstat (files w') (nni_node @ [''static'']) = Some (Symlink (webui @ [''build''])) \<and>
      lstat (files w') (nni_node @ [''jupyter-extension'']) = None)"
proof -
  let ?h = example_legacy_optional_host and ?pf = linux_profile
  have "case before_compile ?h ?pf None example_unbuilt of
          Inl x \<Rightarrow> False
        | Inr w \<Rightarrow>
            (case compile_mandatory ?h ?pf w of
               Inl x \<Rightarrow> False
             | Inr w1 \<Rightarrow>
                 (case yarn_jupyter_extension ?h ?pf w1 of
                    Inr w2 \<Rightarrow> False
                  | Inl (e, w2) \<Rightarrow> e = CalledProcessError) \<and>
                 (case compile_ts ?h ?pf None w of Inl x \<Rightarrow> False | Inr w3 \<Rightarrow> True))"
    by code_simp
  then obtain w w1 w2 w3 where
    steps: "before_compile ?h ?pf None example_unbuilt = Inr w"
      "compile_mandatory ?h ?pf w = Inr w1"
      "yarn_jupyter_extension ?h ?pf w1 = Inl (CalledProcessError, w2)"
      "compile_ts ?h ?pf None w = Inr w3"
    by (auto split: sum.splits prod.splits)
  have "case build ?h ?pf None example_unbuilt of
          Inr w' \<Rightarrow> False
        | Inl (e, w') \<Rightarrow>
            e = FileNotFoundError \<and>
            lstat (files w') (nni_node @ [''main.js''])
              = Some (Symlink (nni_manager @ [''dist'', ''main.js''])) \<and>
            lstat (files w') (nni_node @ [''static'']) = Some (Symlink (webui @ [''build''])) \<and>
            lstat (files w') (nni_node @ [''jupyter-extension''])
              = Some (Symlink (jupyter_extension @ [''build''])) \<and>
            lstat (files w') (jupyter_extension @ [''build'']) = None \<and>
            lstat (files w') package_json_path = Some (File (Json example_patched_manifest)) \<and>
            lstat (files w') package_default_path
              = Some (File (Json example_extension_manifest))"
    by code_simp
  then obtain w' where
    legacy: "build ?h ?pf None example_unbuilt = Inl (FileNotFoundError, w')"
      "lstat (files w') (nni_node @ [''main.js''])
        = Some (Symlink (nni_manager @ [''dist'', ''main.js'']))"
      "lstat (files w') (nni_node @ [''static'']) = Some (Symlink (webui @ [''build'']))"
      "lstat (files w') (nni_node @ [''jupyter-extension''])
        = Some (Symlink (jupyter_extension @ [''build'']))"
      "lstat (files w') (jupyter_extension @ [''build'']) = None"
      "lstat (files w') package_json_path = Some (File (Json example_patched_manifest))"
      "lstat (files w') package_default_path = Some (File (Json example_extension_manifest))"
    by (auto split: sum.splits prod.splits)
  have "case build example_optional_host ?pf None example_unbuilt of
          Inl x \<Rightarrow> False
        | Inr w' \<Rightarrow>
            lstat (files w') (nni_node @ [''main.js''])
              = Some (Symlink (nni_manager @ [''dist'', ''main.js''])) \<and>
            lstat (files w') (nni_node @ [''static'']) = Some (Symlink (webui @ [''build''])) \<and>
            lstat (files w') (nni_node @ [''jupyter-extension'']) = None"
    by code_simp
  then have modern: "\<exists>w'. build example_optional_host ?pf None example_unbuilt = Inr w' \<and>
      lstat (files w') (nni_node @ [''main.js''])
        = Some (Symlink (nni_manager @ [''dist'', ''main.js''])) \<and>
      lstat (files w') (nni_node @ [''static'']) = Some (Symlink (webui @ [''build''])) \<and>
      lstat (files w') (nni_node @ [''jupyter-extension'']) = None"
    by (auto split: sum.splits)
  from steps legacy have "\<exists>w w1 w2 w3 w'.
      before_compile ?h ?pf None example_unbuilt = Inr w \<and>
      compile_mandatory ?h ?pf w = Inr w1 \<and>
      yarn_jupyter_extension ?h ?pf w1 = Inl (CalledProcessError, w2) \<and>
      compile_ts ?h ?pf None w = Inr w3 \<and>
      build ?h ?pf None example_unbuilt = Inl (FileNotFoundError, w') \<and>
      lstat (files w') (nni_node @ [''main.js''])
        = Some (Symlink (nni_manager @ [''dist'', ''main.js''])) \<and>
      lstat (files w') (nni_node @ [''static'']) = Some (Symlink (webui @ [''build''])) \<and>
      lstat (files w') (nni_node @ [''jupyter-extension''])
        = Some (Symlink (jupyter_extension @ [''build''])) \<and>
      lstat (files w') (jupyter_extension @ [''build'']) = None \<and>
      lstat (files w') package_json_path = Some (File (Json example_patched_manifest)) \<and>
      lstat (files w') package_default_path = Some (File (Json example_extension_manifest))"
    by blast
  from this modern show ?thesis by (rule conjI)
qed

end
